theory Spec2Isabelle
  imports Main
begin

section \<open>Values, exceptions and the shared artifacts\<close>

text \<open>
  Python values that flow through \<open>openbq/app.py\<close>: the engine's results, log entries,
  the sealed log and the final summary are all JSON-like. A Python \<open>dict\<close> keeps
  insertion order, so it is an association list.
\<close>

datatype json =
    JNull
  | JBool bool
  | JInt int
  | JStr string
  | JList "json list"
  | JObj "(string \<times> json) list"

type_synonym dict = "(string \<times> json) list"

text \<open>Python truthiness, as used by \<open>if x:\<close>.\<close>

fun truthy :: "json \<Rightarrow> bool" where
  "truthy JNull = False"
| "truthy (JBool b) = b"
| "truthy (JInt n) = (n \<noteq> 0)"
| "truthy (JStr s) = (s \<noteq> [])"
| "truthy (JList xs) = (xs \<noteq> [])"
| "truthy (JObj kv) = (kv \<noteq> [])"

text \<open>\<open>d.get(k)\<close>: the value, or \<open>None\<close> when the key is absent.\<close>

definition get :: "dict \<Rightarrow> string \<Rightarrow> json" where
  "get d k = (case map_of d k of None \<Rightarrow> JNull | Some v \<Rightarrow> v)"

text \<open>\<open>d.pop(k)\<close> on a key that is present: the dict without it.\<close>

definition pop :: "dict \<Rightarrow> string \<Rightarrow> dict" where
  "pop d k = filter (\<lambda>kv. fst kv \<noteq> k) d"

text \<open>\<open>d.update({k: v})\<close> and \<open>d[k] = v\<close>: replace in place, or append a new key.\<close>

definition update :: "dict \<Rightarrow> string \<Rightarrow> json \<Rightarrow> dict" where
  "update d k v =
     (case map_of d k of
        None \<Rightarrow> d @ [(k, v)]
      | Some _ \<Rightarrow> map (\<lambda>kv. if fst kv = k then (k, v) else kv) d)"

text \<open>
  Exceptions. Every one of them is a subclass of Python's \<open>Exception\<close>, so an
  \<open>except Exception\<close> clause catches each; \<open>str_exn\<close> is \<open>str(e)\<close>.
\<close>

datatype exn =
    Exception string
  | AttributeError string
  | TypeError string
  | ValueError string
  | UnboundLocalError string

fun str_exn :: "exn \<Rightarrow> string" where
  "str_exn (Exception m) = m"
| "str_exn (AttributeError m) = m"
| "str_exn (TypeError m) = m"
| "str_exn (ValueError m) = m"
| "str_exn (UnboundLocalError m) = m"

text \<open>
  What the job prints. Each constructor stands for one message of the source; the
  literal text is in the comment.
\<close>

datatype out =
    JobInfo "(string \<times> string) list"  \<comment> \<open>the "Job Info" panel with its metadata rows\<close>
  | InputDirNotFound string             \<comment> \<open>">>> Input directory not found (...). ... Exit."\<close>
  | ScanNumberLimit int                 \<comment> \<open>"Scan number limit: {limit}"\<close>
  | NoValidInput                        \<comment> \<open>">>> No valid input found. Exit."\<close>
  | ScanTaskError string                \<comment> \<open>">>>> Scan task error: {str(e)}"\<close>
  | FailedReloadLog string              \<comment> \<open>"failed to reload metadata for log: {str(e)}"\<close>
  | FailedSeam string                   \<comment> \<open>"failed to seam output: {str(e)}"\<close>
  | FailedReport string                 \<comment> \<open>"failed to generate report: {str(e)}"\<close>
  | FailedFilter string                 \<comment> \<open>"failed to apply filter: {str(e)}"\<close>
  | SummaryHeader                       \<comment> \<open>"> Summary:"\<close>
  | PrintJson json                      \<comment> \<open>\<open>Console().print_json(json.dumps(summary))\<close>\<close>
  | TaskFinished                        \<comment> \<open>">> Task Finished <<"\<close>

subsection \<open>The progress display\<close>

text \<open>
  One task of a \<open>rich.progress.Progress\<close>: \<open>update(advance=n)\<close> adds to the completed
  count, \<open>update(completed=c)\<close> sets it, and the task is finished from the first update
  at which the completed count has reached the total. \<open>p_shown\<close> is the history of the
  displayed count, oldest first.
\<close>

record progress =
  p_total :: int
  p_completed :: int
  p_finished :: bool
  p_shown :: "int list"

definition add_task :: "int \<Rightarrow> progress" where
  "add_task tot = \<lparr>p_total = tot, p_completed = 0, p_finished = False, p_shown = [0]\<rparr>"

definition update_advance :: "progress \<Rightarrow> int \<Rightarrow> progress" where
  "update_advance p n =
     (let c = p_completed p + n
      in p\<lparr>p_completed := c, p_finished := (p_finished p \<or> p_total p \<le> c),
           p_shown := p_shown p @ [c]\<rparr>)"

definition update_completed :: "progress \<Rightarrow> int \<Rightarrow> progress" where
  "update_completed p c =
     p\<lparr>p_completed := c, p_finished := (p_finished p \<or> p_total p \<le> c),
       p_shown := p_shown p @ [c]\<rparr>"

text \<open>
  The coordinator's calls on the worker pool: \<open>RayWait k n\<close> is \<open>ray.wait\<close> on \<open>k\<close>
  tasks with \<open>num_returns = n\<close>, \<open>RayGet k\<close> is the blocking \<open>ray.get\<close> on \<open>k\<close> tasks.
\<close>

datatype pool_op = RayWait nat nat | RayGet nat

text \<open>
  The shared artifacts and the console. A file that has not been created is \<open>None\<close>.
  The worker pool runs the tasks in parallel; the model runs each task when it is
  submitted, which is one of the interleavings (every append is a whole row or a whole
  log entry).
\<close>

record world =
  console :: "out list"
  table :: "dict list option"       \<comment> \<open>the output table at \<open>output_dir\<close>\<close>
  table_seamed :: bool              \<comment> \<open>\<open>write_csv(output_dir, seam=True)\<close> has run\<close>
  logs :: "dict list option"        \<comment> \<open>the open log at \<open>log_dir\<close>\<close>
  log_sealed :: "json option"       \<comment> \<open>\<open>log_out\<close>, once dumped over the log file\<close>
  temp_folders :: "string list"     \<comment> \<open>scratch folders of the per-batch policy\<close>
  submitted :: "string list"        \<comment> \<open>targets handed to \<open>scan_task.remote\<close>, in order\<close>
  report_calls :: nat               \<comment> \<open>calls of \<open>generate_report\<close>\<close>
  filter_calls :: nat               \<comment> \<open>calls of \<open>filter_output\<close>\<close>
  pool :: "pool_op list"            \<comment> \<open>the coordinator's \<open>ray.wait\<close> and \<open>ray.get\<close> calls\<close>
  bars :: "progress list"           \<comment> \<open>each progress bar, as it stood when its \<open>with\<close> block was left\<close>

definition world0 :: world where
  "world0 = \<lparr>console = [], table = None, table_seamed = False, logs = None,
     log_sealed = None, temp_folders = [], submitted = [], report_calls = 0,
     filter_calls = 0, pool = [], bars = []\<rparr>"

definition echo :: "out \<Rightarrow> world \<Rightarrow> world" where
  "echo m w = w\<lparr>console := console w @ [m]\<rparr>"

text \<open>
  Modelled from the spec: \<open>write_csv\<close> and \<open>write_log\<close> live in \<open>openbq/utils\<close>, which
  is not part of the sources at hand. The output table and the log store are append-only
  during the run, created by an \<open>init\<close> call, and each append is one row or one entry.
\<close>

definition write_csv_init :: "world \<Rightarrow> world" where
  "write_csv_init w = w\<lparr>table := Some []\<rparr>"

definition write_log_init :: "world \<Rightarrow> world" where
  "write_log_init w = w\<lparr>logs := Some []\<rparr>"

definition write_csv :: "dict \<Rightarrow> world \<Rightarrow> world" where
  "write_csv row w =
     w\<lparr>table := Some ((case table w of None \<Rightarrow> [] | Some rows \<Rightarrow> rows) @ [row])\<rparr>"

definition write_log :: "dict \<Rightarrow> world \<Rightarrow> world" where
  "write_log entry w =
     w\<lparr>logs := Some ((case logs w of None \<Rightarrow> [] | Some es \<Rightarrow> es) @ [entry])\<rparr>"

section \<open>The collaborators\<close>

text \<open>
  The scoring call \<open>scan\<close> (\<open>core.bqcore.process\<close>) is invoked in two shapes: on a batch
  folder with mode, engine and fusion code, and on a single file with mode, conversion
  source, conversion target and engine.
\<close>

datatype scan_call =
    ScanFolder string string string int
  | ScanFile string string "string list" string string

text \<open>
  Everything the job calls but does not implement is a field of the environment: the
  filesystem, the helpers of \<open>openbq/utils\<close>, the engine, the clock and the
  finalization collaborators. A collaborator that can raise returns \<open>Inl\<close> of the
  exception.
\<close>

record env =
  path_exists :: "string \<Rightarrow> bool"
  validate_path :: "string \<Rightarrow> string"
  extended :: "string list \<Rightarrow> string list"
  iter_matching_files :: "string \<Rightarrow> string \<Rightarrow> string list \<Rightarrow> string list"
  split_input_folder ::
    "string \<Rightarrow> string \<Rightarrow> string list \<Rightarrow> int \<Rightarrow> string \<Rightarrow> int \<Rightarrow> string list"
  scan :: "scan_call \<Rightarrow> exn + json"
  fix_filepath :: "dict \<Rightarrow> dict"
  reconstruct_filepath :: "dict \<Rightarrow> string \<Rightarrow> dict"
  timestamp :: string
  temp_folder :: string
  version :: string
  datetime_str :: string
  process_time :: string
  throughput :: "int \<Rightarrow> string"
  str_list :: "string list \<Rightarrow> string"
  str_int :: "int \<Rightarrow> string"
  upper :: "string \<Rightarrow> string"
  write_log_finish :: "exn option"
  json_load :: "exn option"
  json_dump :: "exn option"
  write_csv_seam :: "exn option"
  generate_report :: "string \<Rightarrow> string \<Rightarrow> string \<Rightarrow> exn + json"
  filter_output ::
    "string \<Rightarrow> string \<Rightarrow> string \<Rightarrow> string \<Rightarrow> string \<Rightarrow> string \<Rightarrow> exn + json"

section \<open>The task: \<open>scan_task\<close>\<close>

text \<open>The dispatch policy: per batch for speech and for the folder-oriented face engines.\<close>

definition batch_policy :: "string \<Rightarrow> string \<Rightarrow> bool" where
  "batch_policy mode engine \<longleftrightarrow>
     mode = ''speech'' \<or> (mode = ''face'' \<and> (engine = ''ofiq'' \<or> engine = ''fusion''))"

text \<open>
  The return value of a task: \<open>None\<close> after a caught scoring error, otherwise the list
  of records it wrote. \<open>Inl\<close> is an exception that escapes the task.
\<close>

type_synonym task_result = "exn + dict list option"

text \<open>
  What a \<open>for\<close> loop iterates over: the elements of a list, the characters of a
  string, the keys of a dict; any other value is not iterable.
\<close>

fun iterate :: "json \<Rightarrow> exn + json list" where
  "iterate (JList xs) = Inr xs"
| "iterate (JStr s) = Inr (map (\<lambda>c. JStr [c]) s)"
| "iterate (JObj d) = Inr (map (\<lambda>kv. JStr (fst kv)) d)"
| "iterate _ = Inl (TypeError ''not iterable'')"

text \<open>The loop over \<open>result_list\<close> of the folder branch (lines 574 to 581).\<close>

fun scan_task_records ::
  "env \<Rightarrow> string \<Rightarrow> string \<Rightarrow> json list \<Rightarrow> dict list \<Rightarrow> world \<Rightarrow> task_result \<times> world" where
  "scan_task_records e path prefix [] results w = (Inr (Some results), w)"
| "scan_task_records e path prefix (JObj r # rest) results w =
     (let r1 = fix_filepath e r;
          r2 = reconstruct_filepath e r1 prefix
      in if truthy (get r2 ''log'')
         then (let log_dict = [(''folder'', JStr path), (''logs'', get r2 ''log'')];
                   r3 = pop r2 ''log'';
                   w1 = write_log log_dict w;
                   w2 = write_csv r3 w1
               in scan_task_records e path prefix rest (results @ [r3]) w2)
         else scan_task_records e path prefix rest (results @ [r2]) (write_csv r2 w))"
| "scan_task_records e path prefix (_ # rest) results w =
     (Inl (AttributeError ''get''), w)"

text \<open>The loop over \<open>logs\<close> of the file branch (lines 592 to 594).\<close>

fun scan_task_logs :: "string \<Rightarrow> json list \<Rightarrow> world \<Rightarrow> (exn + unit) \<times> world" where
  "scan_task_logs path [] w = (Inr (), w)"
| "scan_task_logs path (JObj l # rest) w =
     scan_task_logs path rest (write_log (update l ''file'' (JStr path)) w)"
| "scan_task_logs path (_ # rest) w = (Inl (AttributeError ''update''), w)"

text \<open>
  \<open>scan_task\<close> (lines 552 to 598). The \<open>try\<close> of the folder branch covers the scoring
  call and \<open>result.get("results")\<close>; the \<open>try\<close> of the file branch covers the scoring
  call only. Iterating over a value that is not iterable, and calling a dict method on
  a value that is not a dict, raise outside the \<open>try\<close>.
\<close>

definition scan_task ::
  "env \<Rightarrow> string \<Rightarrow> string \<Rightarrow> string list \<Rightarrow> string \<Rightarrow> string \<Rightarrow> int \<Rightarrow> string \<Rightarrow>
   world \<Rightarrow> task_result \<times> world" where
  "scan_task e path mode conv targ engine fus prefix w =
     (if batch_policy mode engine then
        (case (case scan e (ScanFolder path mode engine fus) of
                 Inl ex \<Rightarrow> Inl ex
               | Inr (JObj result) \<Rightarrow> Inr (get result ''results'')
               | Inr _ \<Rightarrow> Inl (AttributeError ''get'')) of
           Inl ex \<Rightarrow>
             (Inr None,
              write_log [(''folder'', JStr path), (''task error'', JStr (str_exn ex))]
                (echo (ScanTaskError (str_exn ex)) w))
         | Inr result_list \<Rightarrow>
             (case iterate result_list of
                Inl ex \<Rightarrow> (Inl ex, w)
              | Inr items \<Rightarrow> scan_task_records e path prefix items [] w))
      else
        (case scan e (ScanFile path mode conv targ engine) of
           Inl ex \<Rightarrow>
             (Inr None,
              write_log [(''file'', JStr path), (''task error'', JStr (str_exn ex))]
                (echo (ScanTaskError (str_exn ex)) w))
         | Inr (JObj result) \<Rightarrow>
             (let finish = (\<lambda>res w'.
                    (let r = reconstruct_filepath e res prefix
                     in (Inr (Some [r]), write_csv r w')))
              in if truthy (get result ''log'') then
                   (case iterate (get result ''log'') of
                      Inl ex \<Rightarrow> (Inl ex, w)
                    | Inr ls \<Rightarrow>
                        (case scan_task_logs path ls w of
                           (Inl ex, w') \<Rightarrow> (Inl ex, w')
                         | (Inr _, w') \<Rightarrow> finish (pop result ''log'') w'))
                 else finish result w)
         | Inr _ \<Rightarrow> (Inl (AttributeError ''get''), w)))"

section \<open>The job: \<open>run\<close>\<close>

record args =
  mode :: string
  input_folder :: string
  output_folder :: string
  reporting :: bool
  limit :: int
  pattern :: string
  type_list :: "string list"   \<comment> \<open>the parameter \<open>type\<close>\<close>
  convert :: "string list"
  target :: string
  attributes :: string
  query :: string
  sort_by :: string            \<comment> \<open>the parameter \<open>sort\<close>\<close>
  cwd :: string
  prefix_arg :: string         \<comment> \<open>the parameter \<open>prefix\<close>\<close>
  batch :: int
  fusion :: int
  engine :: string
  debug :: bool

text \<open>Line 75: the accepted extensions, the variable \<open>TYPE\<close>.\<close>

definition TYPE_exts :: "args \<Rightarrow> string list" where
  "TYPE_exts a = (if mode a \<noteq> ''speech'' then type_list a else [''wav''])"

text \<open>Lines 78 to 86 and 102 to 103: the rows of the "Job Info" panel.\<close>

definition metadata :: "env \<Rightarrow> args \<Rightarrow> string \<Rightarrow> int \<Rightarrow> (string \<times> string) list" where
  "metadata e a folder file_total =
     [(''Mode'', upper e (mode a))]
     @ (if mode a = ''face'' then [(''Engine'', upper e (engine a))] else [])
     @ (if engine a = ''fusion'' then [(''Fusion Code'', str_int e (fusion a))] else [])
     @ [(''Input Type'', str_list e (TYPE_exts a))]
     @ (if mode a = ''finger'' \<and> target a \<noteq> [] then [(''Target Type'', target a)] else [])
     @ [(''Input Folder'', prefix_arg a @ folder),
        (''Input Count'', str_int e file_total)]"

text \<open>Lines 113 to 116: the limit clamps the total; a limit of 0 is no limit.\<close>

definition limit_total :: "int \<Rightarrow> int \<Rightarrow> int" where
  "limit_total lim file_total =
     (if lim \<noteq> 0 then (if lim < file_total then lim else file_total) else file_total)"

text \<open>The counters of the dispatch loops; \<open>batch_now\<close> is the variable \<open>batch\<close>, which
  the per-batch loop overwrites when it clips.\<close>

record counters =
  file_count :: int
  failed :: int
  batch_now :: int
  bar :: progress

text \<open>Truthiness of a task's return value: \<open>None\<close> and the empty list are falsy.\<close>

fun truthy_result :: "dict list option \<Rightarrow> bool" where
  "truthy_result None = False"
| "truthy_result (Some rs) = (rs \<noteq> [])"

subsection \<open>The per-batch policy (lines 145 to 192)\<close>

text \<open>Lines 183 to 190: what one resolved batch does to the counters.\<close>

definition batch_step :: "int \<Rightarrow> bool \<Rightarrow> counters \<Rightarrow> counters" where
  "batch_step file_total ok c =
     (if ok then
        (let fc = file_count c + batch_now c
         in if fc > file_total
            then (let b = file_total - fc + batch_now c
                  in c\<lparr>file_count := file_total, batch_now := b,
                       bar := update_advance (bar c) b\<rparr>)
            else c\<lparr>file_count := fc, bar := update_advance (bar c) (batch_now c)\<rparr>)
      else c\<lparr>failed := failed c + batch_now c\<rparr>)"

text \<open>
  Lines 165 to 191. The poll-and-sleep loop of lines 179 to 182 waits until the one
  in-flight task is ready; in the model the task has run when it is submitted, so the
  loop is passed at once. \<open>ray.get(ready)[0]\<close> re-raises an exception that escaped
  the task.
\<close>

fun per_batch_loop ::
  "env \<Rightarrow> args \<Rightarrow> int \<Rightarrow> string list \<Rightarrow> counters \<Rightarrow> world \<Rightarrow> (exn + counters) \<times> world" where
  "per_batch_loop e a file_total [] c w = (Inr c, w\<lparr>bars := bars w @ [bar c]\<rparr>)"
| "per_batch_loop e a file_total (folder # rest) c w =
     (case scan_task e folder (mode a) (convert a) (target a) (engine a) (fusion a)
             (prefix_arg a) (w\<lparr>submitted := submitted w @ [folder]\<rparr>) of
        (Inl ex, w') \<Rightarrow>
          (Inl ex, w'\<lparr>pool := pool w' @ [RayWait 1 1, RayGet 1], bars := bars w' @ [bar c]\<rparr>)
      | (Inr ret, w') \<Rightarrow>
          per_batch_loop e a file_total rest (batch_step file_total (truthy_result ret) c)
            (w'\<lparr>pool := pool w' @ [RayWait 1 1, RayGet 1]\<rparr>))"

text \<open>What a dispatch policy hands to the finalizer.\<close>

record dispatched =
  d_file_count :: int
  d_failed :: int

definition per_batch_dispatch ::
  "env \<Rightarrow> args \<Rightarrow> string \<Rightarrow> int \<Rightarrow> world \<Rightarrow> (exn + dispatched) \<times> world" where
  "per_batch_dispatch e a folder file_total w =
     (let w1 = w\<lparr>temp_folders := temp_folders w @ [temp_folder e]\<rparr>;
          input_folders = split_input_folder e folder (temp_folder e) (extended e (TYPE_exts a))
                            (batch a) (pattern a) (limit a);
          c0 = \<lparr>file_count = 0, failed = 0, batch_now = batch a, bar = add_task file_total\<rparr>
      in case per_batch_loop e a file_total input_folders c0 w1 of
           (Inl ex, w2) \<Rightarrow> (Inl ex, w2)
         | (Inr c, w2) \<Rightarrow>
             (Inr \<lparr>d_file_count = file_count c, d_failed = failed c\<rparr>,
              w2\<lparr>temp_folders := filter (\<lambda>t. t \<noteq> temp_folder e) (temp_folders w2)\<rparr>))"

subsection \<open>The per-file policy (lines 193 to 241)\<close>

text \<open>Lines 201 to 217: submit every file until the bar is finished.\<close>

fun submit_loop ::
  "env \<Rightarrow> args \<Rightarrow> string list \<Rightarrow> task_result list \<Rightarrow> counters \<Rightarrow> world \<Rightarrow>
   task_result list \<times> counters \<times> world" where
  "submit_loop e a [] tasks c w = (tasks, c, w)"
| "submit_loop e a (path # rest) tasks c w =
     (case scan_task e path (mode a) (convert a) (target a) (engine a) 6 (prefix_arg a)
             (w\<lparr>submitted := submitted w @ [path]\<rparr>) of
        (r, w') \<Rightarrow>
          (let c' = c\<lparr>file_count := file_count c + 1, bar := update_advance (bar c) 1\<rparr>
           in if p_finished (bar c') then (tasks @ [r], c', w')
              else submit_loop e a rest (tasks @ [r]) c' w'))"

definition eta_step :: nat where
  "eta_step = 10"

text \<open>
  \<open>ray.wait(tasks, num_returns=n)\<close> without a timeout blocks until \<open>n\<close> tasks are
  ready and returns them apart from the others. Which tasks finish first is up to the
  pool; the model lists the tasks in completion order.
\<close>

definition ray_wait :: "'a list \<Rightarrow> nat \<Rightarrow> 'a list \<times> 'a list" where
  "ray_wait ts n = (take n ts, drop n ts)"

text \<open>\<open>ray.get\<close> on a list: all the results, or the first escaped exception.\<close>

fun ray_get :: "task_result list \<Rightarrow> exn + dict list option list" where
  "ray_get [] = Inr []"
| "ray_get (Inl ex # ts) = Inl ex"
| "ray_get (Inr r # ts) = (case ray_get ts of Inl ex \<Rightarrow> Inl ex | Inr rs \<Rightarrow> Inr (r # rs))"

text \<open>
  Lines 234 to 240, the draining loop. \<open>file_total\<close> is the total the bar was created
  with on line 233, that is \<open>p_total p\<close>.
\<close>

function drain ::
  "progress \<Rightarrow> task_result list \<Rightarrow> pool_op list \<Rightarrow>
   progress \<times> task_result list \<times> pool_op list" where
  "drain p not_ready ops =
     (if p_finished p then (p, not_ready, ops)
      else if length not_ready < eta_step
      then drain (update_completed p (p_total p)) not_ready ops
      else (case ray_wait not_ready eta_step of
              (ready, not_ready') \<Rightarrow>
                drain (update_advance p (int (length ready))) not_ready'
                  (ops @ [RayWait (length not_ready) eta_step])))"
  by pat_completeness auto
termination
  by (relation "measure (\<lambda>(p, not_ready, ops). if p_finished p then 0 else 1 + length not_ready)")
    (auto simp: update_completed_def update_advance_def ray_wait_def eta_step_def Let_def)

declare drain.simps [simp del]

text \<open>
  Lines 194 to 241. \<open>ray.wait\<close> on an empty task list raises, since it is asked for one
  result.
\<close>

definition per_file_dispatch ::
  "env \<Rightarrow> args \<Rightarrow> int \<Rightarrow> string list \<Rightarrow> world \<Rightarrow> (exn + dispatched) \<times> world" where
  "per_file_dispatch e a file_total file_globs w =
     (let c0 = \<lparr>file_count = 0, failed = 0, batch_now = batch a, bar = add_task file_total\<rparr>
      in case submit_loop e a file_globs [] c0 w of
           (tasks, c1, w1) \<Rightarrow>
             (let w2 = w1\<lparr>bars := bars w1 @ [bar c1]\<rparr>
              in if tasks = []
                 then (Inl (ValueError ''num_returns''), w2\<lparr>pool := pool w2 @ [RayWait 0 1]\<rparr>)
                 else (case ray_wait tasks 1 of
                         (ready, not_ready) \<Rightarrow>
                           (case drain (add_task file_total) not_ready
                                   [RayWait (length tasks) 1] of
                              (p, not_ready', ops) \<Rightarrow>
                                (let w3 = w2\<lparr>pool := pool w2 @ ops @ [RayGet (length not_ready')],
                                            bars := bars w2 @ [p]\<rparr>
                                 in case ray_get not_ready' of
                                      Inl ex \<Rightarrow> (Inl ex, w3)
                                    | Inr _ \<Rightarrow>
                                        (Inr \<lparr>d_file_count = file_count c1,
                                              d_failed = failed c1\<rparr>, w3))))))"

subsection \<open>The finalizer (lines 243 to 336)\<close>

text \<open>Lines 270 to 274: the failure count written into the log's metadata.\<close>

definition count_failed :: "dict list \<Rightarrow> int \<Rightarrow> int" where
  "count_failed entries failed_now =
     (if failed_now = 0
      then int (length (filter (\<lambda>item. truthy (get item ''load image'')) entries))
      else failed_now)"

text \<open>Lines 251 to 274: \<open>log_out\<close>.\<close>

definition log_out :: "env \<Rightarrow> args \<Rightarrow> string \<Rightarrow> int \<Rightarrow> int \<Rightarrow> dict list \<Rightarrow> json" where
  "log_out e a folder fc failed_count entries =
     (let md0 = [(''version'', JStr (''OpenBQ v'' @ version e)),
                 (''datetime'', JStr (datetime_str e)),
                 (''input directory'', JStr folder),
                 (''engine'', JStr (engine a)),
                 (''mode'', JStr (mode a)),
                 (''processed'', JInt fc),
                 (''failed'', JInt 0),
                 (''log'', JNull),
                 (''process time'', JStr (process_time e))];
          md1 = (if engine a = ''fusion'' then update md0 ''fusion'' (JInt (fusion a)) else md0);
          md2 = update md1 ''log'' (JInt (int (length entries)));
          md3 = update md2 ''failed'' (JInt failed_count)
      in JObj [(''metadata'', JObj md3), (''log'', JList (map JObj entries))])"

text \<open>
  Lines 249 to 278, the \<open>try\<close> block that seals the log. The result is the binding of
  \<open>failed_count\<close>: the variable is assigned inside the block only, so it is unbound
  (\<open>None\<close>) when the block raises before line 270.
\<close>

definition reload_log ::
  "env \<Rightarrow> args \<Rightarrow> string \<Rightarrow> int \<Rightarrow> int \<Rightarrow> world \<Rightarrow> int option \<times> world" where
  "reload_log e a folder fc failed_now w =
     (case write_log_finish e of
        Some ex \<Rightarrow> (None, echo (FailedReloadLog (str_exn ex)) w)
      | None \<Rightarrow>
          (case json_load e of
             Some ex \<Rightarrow> (None, echo (FailedReloadLog (str_exn ex)) w)
           | None \<Rightarrow>
               (case logs w of
                  None \<Rightarrow> (None, echo (FailedReloadLog ''No such file or directory'') w)
                | Some entries \<Rightarrow>
                    (let failed_count = count_failed entries failed_now
                     in case json_dump e of
                          Some ex \<Rightarrow> (Some failed_count, echo (FailedReloadLog (str_exn ex)) w)
                        | None \<Rightarrow>
                            (Some failed_count,
                             w\<lparr>log_sealed :=
                                 Some (log_out e a folder fc failed_count entries)\<rparr>)))))"

text \<open>Truthiness of \<open>output_dir\<close>, a string or \<open>None\<close>.\<close>

fun truthy_path :: "string option \<Rightarrow> bool" where
  "truthy_path None = False"
| "truthy_path (Some s) = (s \<noteq> [])"

fun json_of_path :: "string option \<Rightarrow> json" where
  "json_of_path None = JNull"
| "json_of_path (Some s) = JStr s"

text \<open>Lines 284 to 288.\<close>

definition seam_output :: "env \<Rightarrow> string option \<Rightarrow> world \<Rightarrow> world" where
  "seam_output e output_dir w =
     (if truthy_path output_dir
      then (case write_csv_seam e of
              Some ex \<Rightarrow> echo (FailedSeam (str_exn ex)) w
            | None \<Rightarrow> w\<lparr>table_seamed := True\<rparr>)
      else w)"

text \<open>Lines 290 to 303: the value of \<open>report_dir\<close>.\<close>

definition make_report :: "env \<Rightarrow> args \<Rightarrow> string option \<Rightarrow> world \<Rightarrow> json \<times> world" where
  "make_report e a output_dir w =
     (if truthy_path output_dir \<and> reporting a
      then (let w1 = w\<lparr>report_calls := report_calls w + 1\<rparr>
            in case generate_report e (the output_dir) (cwd a) (prefix_arg a) of
                 Inl ex \<Rightarrow> (JNull, echo (FailedReport (str_exn ex)) w1)
               | Inr dir \<Rightarrow>
                   if truthy dir
                   then (case dir of
                           JObj d \<Rightarrow>
                             (JObj [(''Preview Table'', get d ''table''),
                                    (''EDA Report'', get d ''report'')], w1)
                         | _ \<Rightarrow> (JNull, echo (FailedReport ''get'') w1))
                   else (JBool False, w1))
      else (JNull, w))"

text \<open>Lines 305 to 317: the value of \<open>outlier_filter\<close>.\<close>

definition make_filter :: "env \<Rightarrow> args \<Rightarrow> string option \<Rightarrow> world \<Rightarrow> json \<times> world" where
  "make_filter e a output_dir w =
     (if truthy_path output_dir \<and> (attributes a \<noteq> [] \<or> query a \<noteq> [] \<or> sort_by a \<noteq> [])
      then (let w1 = w\<lparr>filter_calls := filter_calls w + 1\<rparr>
            in case filter_output e (the output_dir) (attributes a) (query a) (sort_by a)
                      (cwd a) (prefix_arg a) of
                 Inl ex \<Rightarrow> (JNull, echo (FailedFilter (str_exn ex)) w1)
               | Inr dir \<Rightarrow>
                   if truthy dir
                   then (case dir of
                           JObj d \<Rightarrow>
                             (JObj [(''Output'', get d ''output''),
                                    (''Report'', get d ''report'')], w1)
                         | _ \<Rightarrow> (JNull, echo (FailedFilter ''get'') w1))
                   else (JBool False, w1))
      else (JNull, w))"

text \<open>
  Lines 320 to 333. The throughput \<open>file_count / job_timer\<close> is a float formatted to
  two places; the environment renders it (the elapsed time is taken to be positive).
\<close>

definition summary ::
  "env \<Rightarrow> string \<Rightarrow> string \<Rightarrow> int \<Rightarrow> string option \<Rightarrow> json \<Rightarrow> json \<Rightarrow> dict" where
  "summary e folder log_dir fc output_dir report_dir outlier_filter =
     [(''Total process time'', JStr (process_time e)),
      (''System throughput'', JStr (throughput e fc)),
      (''Assessment Task'',
         JObj [(''Processed'', JInt fc),
               (''Input'', JStr folder),
               (''Output'', json_of_path output_dir),
               (''Report'', report_dir),
               (''Log'', JStr log_dir)])]
     @ (if truthy outlier_filter then [(''Outlier Filter'', outlier_filter)] else [])"

text \<open>
  Lines 249 to 336. Line 280 reads \<open>failed_count\<close>; when the variable is unbound the
  read raises, and nothing catches it.
\<close>

definition finalize ::
  "env \<Rightarrow> args \<Rightarrow> string \<Rightarrow> string \<Rightarrow> string \<Rightarrow> int \<Rightarrow> int \<Rightarrow> world \<Rightarrow> (exn + unit) \<times> world" where
  "finalize e a folder output_dir0 log_dir fc failed_now w =
     (case reload_log e a folder fc failed_now w of
        (None, w1) \<Rightarrow> (Inl (UnboundLocalError ''failed_count''), w1)
      | (Some failed_count, w1) \<Rightarrow>
          (let output_dir = (if fc = failed_count then None else Some output_dir0);
               w2 = seam_output e output_dir w1
           in case make_report e a output_dir w2 of
                (report_dir, w3) \<Rightarrow>
                  (case make_filter e a output_dir w3 of
                     (outlier_filter, w4) \<Rightarrow>
                       (Inr (),
                        echo TaskFinished
                          (echo (PrintJson (JObj (summary e folder log_dir fc output_dir
                                                    report_dir outlier_filter)))
                             (echo SummaryHeader w4))))))"

subsection \<open>The whole job (lines 42 to 336)\<close>

text \<open>Lines 98 to 100: the number of matching input files.\<close>

definition found_total :: "env \<Rightarrow> args \<Rightarrow> int" where
  "found_total e a =
     int (length (iter_matching_files e (validate_path e (input_folder a)) (pattern a)
                    (extended e (TYPE_exts a))))"

text \<open>Lines 105 to 114: the job panel and the limit are printed.\<close>

definition announce :: "env \<Rightarrow> args \<Rightarrow> world \<Rightarrow> world" where
  "announce e a w =
     (let w1 = echo (JobInfo (metadata e a (validate_path e (input_folder a))
                        (found_total e a))) w
      in if limit a \<noteq> 0 then echo (ScanNumberLimit (limit a)) w1 else w1)"

text \<open>Lines 131 to 133: where the output table and the log go.\<close>

definition output_path :: "env \<Rightarrow> args \<Rightarrow> string" where
  "output_path e a =
     validate_path e (output_folder a) @ ''output_'' @ mode a @ ''_'' @ engine a @ ''_''
       @ timestamp e @ ''.csv''"

definition log_path :: "env \<Rightarrow> args \<Rightarrow> string" where
  "log_path e a =
     validate_path e (output_folder a) @ ''log_'' @ mode a @ ''_'' @ engine a @ ''_''
       @ timestamp e @ ''.json''"

text \<open>Lines 139 to 241: the enumeration \<open>file_globs\<close> and the choice of the policy.\<close>

definition dispatch :: "env \<Rightarrow> args \<Rightarrow> int \<Rightarrow> world \<Rightarrow> (exn + dispatched) \<times> world" where
  "dispatch e a file_total w =
     (let folder = validate_path e (input_folder a);
          file_globs = iter_matching_files e folder (pattern a) (extended e (TYPE_exts a))
      in if batch_policy (mode a) (engine a)
         then per_batch_dispatch e a folder file_total w
         else per_file_dispatch e a file_total file_globs w)"

definition run :: "env \<Rightarrow> args \<Rightarrow> world \<Rightarrow> (exn + unit) \<times> world" where
  "run e a w =
     (if \<not> path_exists e (input_folder a)
      then (Inr (), echo (InputDirNotFound (input_folder a)) w)
      else
        (let w2 = announce e a w;
             file_total = limit_total (limit a) (found_total e a)
         in if file_total = 0 then (Inr (), echo NoValidInput w2)
            else
              (let w3 = write_log_init (write_csv_init w2)
               in case dispatch e a file_total w3 of
                    (Inl ex, w4) \<Rightarrow> (Inl ex, w4)
                  | (Inr d, w4) \<Rightarrow>
                      finalize e a (validate_path e (input_folder a)) (output_path e a)
                        (log_path e a) (d_file_count d) (d_failed d) w4)))"

section \<open>Reading the outcome of a job\<close>

text \<open>The documents printed with \<open>print_json\<close>, and a field of a JSON object.\<close>

fun printed :: "out list \<Rightarrow> json list" where
  "printed [] = []"
| "printed (PrintJson j # ms) = j # printed ms"
| "printed (_ # ms) = printed ms"

fun field :: "json \<Rightarrow> string \<Rightarrow> json" where
  "field (JObj d) k = get d k"
| "field _ k = JNull"

fun keys :: "json \<Rightarrow> string list" where
  "keys (JObj d) = map fst d"
| "keys _ = []"

text \<open>A bar never moves backwards and never shows more than its total.\<close>

definition bar_ok :: "progress \<Rightarrow> bool" where
  "bar_ok p \<longleftrightarrow> sorted (p_shown p) \<and> list_all (\<lambda>c. c \<le> p_total p) (p_shown p)"

text \<open>
  The invariant of a bar during a dispatch loop: the history is ascending, nothing
  shown is above the current count, and the current count is within the total.
\<close>

definition bar_inv :: "progress \<Rightarrow> bool" where
  "bar_inv p \<longleftrightarrow>
     sorted (p_shown p) \<and> list_all (\<lambda>c. c \<le> p_completed p) (p_shown p)
     \<and> p_completed p \<le> p_total p"

text \<open>What a task leaves alone: the bars, the submissions, the pool calls and the
  printed documents.\<close>

definition frame :: "world \<Rightarrow> world \<Rightarrow> bool" where
  "frame w w' \<longleftrightarrow> bars w' = bars w \<and> submitted w' = submitted w \<and> pool w' = pool w
     \<and> printed (console w') = printed (console w)"

text \<open>Line 139 and lines 149 to 156: the file enumeration and the batch folders of a job.\<close>

definition file_globs :: "env \<Rightarrow> args \<Rightarrow> string list" where
  "file_globs e a =
     iter_matching_files e (validate_path e (input_folder a)) (pattern a)
       (extended e (TYPE_exts a))"

definition input_folders :: "env \<Rightarrow> args \<Rightarrow> string list" where
  "input_folders e a =
     split_input_folder e (validate_path e (input_folder a)) (temp_folder e)
       (extended e (TYPE_exts a)) (batch a) (pattern a) (limit a)"

text \<open>
  The outcome of the task of one batch folder: what \<open>scan_task\<close> returns for it (the
  return value does not depend on the artifacts), whether it returns at all, and whether
  the value it returns is truthy.
\<close>

definition task_result_of :: "env \<Rightarrow> args \<Rightarrow> string \<Rightarrow> task_result" where
  "task_result_of e a folder =
     fst (scan_task e folder (mode a) (convert a) (target a) (engine a) (fusion a)
            (prefix_arg a) world0)"

definition task_returns :: "env \<Rightarrow> args \<Rightarrow> string \<Rightarrow> bool" where
  "task_returns e a folder =
     (case task_result_of e a folder of Inl _ \<Rightarrow> False | Inr _ \<Rightarrow> True)"

definition task_ok :: "env \<Rightarrow> args \<Rightarrow> string \<Rightarrow> bool" where
  "task_ok e a folder =
     (case task_result_of e a folder of Inl _ \<Rightarrow> False | Inr ret \<Rightarrow> truthy_result ret)"

text \<open>The number of batches of a list that succeed, and the number that fail.\<close>

definition ok_count :: "env \<Rightarrow> args \<Rightarrow> string list \<Rightarrow> int" where
  "ok_count e a fs = int (length (filter (task_ok e a) fs))"

definition fail_count :: "env \<Rightarrow> args \<Rightarrow> string list \<Rightarrow> int" where
  "fail_count e a fs = int (length (filter (\<lambda>folder. \<not> task_ok e a folder) fs))"

text \<open>
  The counters after the batches of a list have resolved in order: lines 183 to 190
  applied once per batch, with the outcome of that batch's task.
\<close>

definition batch_fold :: "env \<Rightarrow> args \<Rightarrow> int \<Rightarrow> counters \<Rightarrow> string list \<Rightarrow> counters" where
  "batch_fold e a ft c fs = foldl (\<lambda>c folder. batch_step ft (task_ok e a folder) c) c fs"

text \<open>
  The batch folders stay within the job total: counted at \<open>batch\<close> files each, the
  folders before the last do not pass the total.
\<close>

definition folders_within :: "env \<Rightarrow> args \<Rightarrow> int \<Rightarrow> bool" where
  "folders_within e a ft \<longleftrightarrow>
     list_all (\<lambda>k. batch a * int k \<le> ft) [1 ..< length (input_folders e a)]"




text \<open>The work units that a job has submitted since the state \<open>w\<close>.\<close>

definition units_since :: "world \<Rightarrow> world \<Rightarrow> string list" where
  "units_since w w' = drop (length (submitted w)) (submitted w')"

section \<open>Concrete jobs\<close>

text \<open>Decimal rendering of a count, for file and folder names.\<close>

fun str_nat :: "nat \<Rightarrow> string" where
  "str_nat n =
     (if n < 10 then [''0123456789'' ! n]
      else str_nat (n div 10) @ [''0123456789'' ! (n mod 10)])"

declare str_nat.simps [simp del]

function chunks :: "nat \<Rightarrow> 'a list \<Rightarrow> 'a list list" where
  "chunks n xs =
     (if n = 0 \<or> xs = [] then [] else take n xs # chunks n (drop n xs))"
  by pat_completeness auto
termination
  by (relation "measure (\<lambda>(n, xs). length xs)") auto

declare chunks.simps [simp del]

text \<open>
  Modelled from the spec: \<open>split_input_folder\<close> lives in \<open>openbq/utils\<close>, which is not
  part of the sources at hand. It copies up to \<open>batch_size\<close> matching files into each
  fresh scratch folder and yields the folders until the file budget, governed by the
  limit when one is set, is used up.
\<close>

definition split_batches :: "string list \<Rightarrow> int \<Rightarrow> int \<Rightarrow> string list list" where
  "split_batches files batch_size lim =
     chunks (nat batch_size) (if lim \<noteq> 0 then take (nat lim) files else files)"

definition split_folders :: "string list \<Rightarrow> string \<Rightarrow> int \<Rightarrow> int \<Rightarrow> string list" where
  "split_folders files temp batch_size lim =
     map (\<lambda>k. temp @ ''/batch_'' @ str_nat k)
       [0 ..< length (split_batches files batch_size lim)]"

text \<open>\<open>n\<close> input files under \<open>data/\<close>.\<close>

definition files_n :: "nat \<Rightarrow> string list" where
  "files_n n = map (\<lambda>k. ''data/f'' @ str_nat k) [0 ..< n]"

text \<open>
  An environment over the given input files and scoring call, in which every other
  collaborator succeeds.
\<close>

definition example_env :: "string list \<Rightarrow> (scan_call \<Rightarrow> exn + json) \<Rightarrow> env" where
  "example_env files scan_fn =
     \<lparr>path_exists = (\<lambda>p. True),
      validate_path = (\<lambda>p. p),
      extended = (\<lambda>ts. ts),
      iter_matching_files = (\<lambda>folder pat exts. files),
      split_input_folder = (\<lambda>folder temp exts batch_size pat lim.
                              split_folders files temp batch_size lim),
      scan = scan_fn,
      fix_filepath = (\<lambda>r. r),
      reconstruct_filepath = (\<lambda>r pre. r),
      timestamp = ''T'',
      temp_folder = ''temp/0'',
      version = ''1'',
      datetime_str = ''D'',
      process_time = ''0h0m9s'',
      throughput = (\<lambda>n. ''1.00 it/s''),
      str_list = concat,
      str_int = (\<lambda>i. str_nat (nat i)),
      upper = (\<lambda>s. s),
      write_log_finish = None,
      json_load = None,
      json_dump = None,
      write_csv_seam = None,
      generate_report = (\<lambda>out c pre.
                           Inr (JObj [(''table'', JStr ''table.html''),
                                      (''report'', JStr ''report.html'')])),
      filter_output = (\<lambda>out cols q srt c pre.
                         Inr (JObj [(''output'', JStr ''filtered.csv''),
                                    (''report'', JStr ''filtered.html'')]))\<rparr>"

definition example_args :: "string \<Rightarrow> string \<Rightarrow> int \<Rightarrow> int \<Rightarrow> args" where
  "example_args m eng lim bat =
     \<lparr>mode = m, input_folder = ''data/'', output_folder = ''out/'', reporting = True,
      limit = lim, pattern = ''*'', type_list = [''jpg'', ''png''], convert = [],
      target = [], attributes = [], query = [], sort_by = [], cwd = [], prefix_arg = [],
      batch = bat, fusion = 6, engine = eng, debug = False\<rparr>"

text \<open>
  An environment whose file enumeration and partitioner look at the extensions they are
  given: they find the files only when \<open>wav\<close> is among them.
\<close>

definition wav_env :: "string list \<Rightarrow> (scan_call \<Rightarrow> exn + json) \<Rightarrow> env" where
  "wav_env files scan_fn =
     (example_env files scan_fn)
       \<lparr>iter_matching_files := (\<lambda>folder pat exts. if ''wav'' \<in> set exts then files else []),
        split_input_folder := (\<lambda>folder temp exts batch_size pat lim.
                                 if ''wav'' \<in> set exts
                                 then split_folders files temp batch_size lim else [])\<rparr>"

text \<open>An environment whose partitioner yields one folder whatever the batch size.\<close>

definition one_folder_env :: "string list \<Rightarrow> (scan_call \<Rightarrow> exn + json) \<Rightarrow> env" where
  "one_folder_env files scan_fn =
     (example_env files scan_fn)
       \<lparr>split_input_folder := (\<lambda>folder temp exts batch_size pat lim. [temp @ ''/batch_0''])\<rparr>"

text \<open>Scoring calls: one that always raises, and one that scores every unit.\<close>

definition scan_raises :: "scan_call \<Rightarrow> exn + json" where
  "scan_raises c = Inl (Exception ''cannot score'')"

fun scan_scores :: "scan_call \<Rightarrow> exn + json" where
  "scan_scores (ScanFile path m conv targ eng) =
     Inr (JObj [(''file'', JStr path), (''quality'', JInt 50)])"
| "scan_scores (ScanFolder path m eng fus) =
     Inr (JObj [(''results'', JList [JObj [(''file'', JStr path), (''quality'', JInt 50)]])])"

text \<open>A scoring call that raises on one target and scores every other.\<close>

definition scan_fails_on :: "string \<Rightarrow> scan_call \<Rightarrow> exn + json" where
  "scan_fails_on bad c =
     (case c of
        ScanFile path m conv targ eng \<Rightarrow>
          if path = bad then Inl (Exception ''cannot score'') else scan_scores c
      | ScanFolder path m eng fus \<Rightarrow>
          if path = bad then Inl (Exception ''cannot score'') else scan_scores c)"



section \<open>Auxiliary facts\<close>

lemma printed_append: "printed (xs @ ys) = printed xs @ printed ys"
  by (induction xs rule: printed.induct) simp_all

lemma frame_refl: "frame w w"
  by (simp add: frame_def)

lemma frame_write_log: "frame w w' \<Longrightarrow> frame w (write_log x w')"
  by (simp add: frame_def write_log_def)

lemma frame_write_csv: "frame w w' \<Longrightarrow> frame w (write_csv x w')"
  by (simp add: frame_def write_csv_def)

lemma frame_scan_task_records:
  "frame w0 w \<Longrightarrow> frame w0 (snd (scan_task_records e path pre rs acc w))"
  by (induction e path pre rs acc w rule: scan_task_records.induct)
     (simp_all add: Let_def frame_write_log frame_write_csv)

lemma frame_scan_task_logs:
  "frame w0 w \<Longrightarrow> frame w0 (snd (scan_task_logs path ls w))"
  by (induction path ls w rule: scan_task_logs.induct) (simp_all add: frame_write_log)

lemma frame_scan_task:
  "frame w (snd (scan_task e path m conv targ eng fus pre w))"
proof -
  have e: "frame w (write_log x (echo (ScanTaskError s) w))" for x s
    by (simp add: frame_def write_log_def echo_def printed_append)
  have l: "frame w (snd (scan_task_logs path ls w))" for ls
    by (rule frame_scan_task_logs) (rule frame_refl)
  have r: "frame w (snd (scan_task_records e path pre rs [] w))" for rs
    by (rule frame_scan_task_records) (rule frame_refl)
  have c: "frame w (write_csv x (snd (scan_task_logs path ls w)))" for x ls
    by (rule frame_write_csv) (rule l)
  show ?thesis
  proof (cases "batch_policy m eng")
    case True
    then show ?thesis
      by (simp add: scan_task_def e r frame_refl split: sum.splits json.splits)
  next
    case False
    then show ?thesis
      by (simp add: scan_task_def Let_def case_prod_unfold e l c frame_refl frame_write_csv
          split: sum.splits json.splits)
  qed
qed


lemma bar_inv_ok: "bar_inv p \<Longrightarrow> bar_ok p"
  by (auto simp: bar_inv_def bar_ok_def list_all_iff)

lemma add_task_inv: "0 \<le> t \<Longrightarrow> bar_inv (add_task t)"
  by (simp add: bar_inv_def add_task_def)

lemma update_advance_inv:
  "bar_inv p \<Longrightarrow> 0 \<le> n \<Longrightarrow> p_completed p + n \<le> p_total p \<Longrightarrow> bar_inv (update_advance p n)"
  by (auto simp: bar_inv_def update_advance_def Let_def sorted_append list_all_iff)

lemma update_completed_inv:
  "bar_inv p \<Longrightarrow> p_completed p \<le> c \<Longrightarrow> c \<le> p_total p \<Longrightarrow> bar_inv (update_completed p c)"
  by (auto simp: bar_inv_def update_completed_def sorted_append list_all_iff)

lemma update_advance_total [simp]: "p_total (update_advance p n) = p_total p"
  by (simp add: update_advance_def Let_def)

lemma update_completed_total [simp]: "p_total (update_completed p c) = p_total p"
  by (simp add: update_completed_def)

lemma update_advance_completed [simp]: "p_completed (update_advance p n) = p_completed p + n"
  by (simp add: update_advance_def Let_def)

lemma batch_step_inv:
  assumes "bar_inv (bar c)" "p_completed (bar c) = file_count c" "p_total (bar c) = ft"
    "0 \<le> batch_now c"
  shows "bar_inv (bar (batch_step ft ok c))
     \<and> p_completed (bar (batch_step ft ok c)) = file_count (batch_step ft ok c)
     \<and> p_total (bar (batch_step ft ok c)) = ft
     \<and> 0 \<le> batch_now (batch_step ft ok c)"
proof -
  from assms have le: "file_count c \<le> ft"
    by (simp add: bar_inv_def)
  show ?thesis
  proof (cases "ok \<and> ft < file_count c + batch_now c")
    case True
    with assms le show ?thesis
      by (simp add: batch_step_def Let_def update_advance_inv)
  next
    case False
    with assms le show ?thesis
      by (auto simp: batch_step_def Let_def update_advance_inv)
  qed
qed

lemma scan_task_bars [simp]: "bars (snd (scan_task e path m conv targ eng fus pre w)) = bars w"
  using frame_scan_task [of w e path m conv targ eng fus pre] by (simp add: frame_def)

lemma scan_task_submitted [simp]:
  "submitted (snd (scan_task e path m conv targ eng fus pre w)) = submitted w"
  using frame_scan_task [of w e path m conv targ eng fus pre] by (simp add: frame_def)

lemma scan_task_pool [simp]: "pool (snd (scan_task e path m conv targ eng fus pre w)) = pool w"
  using frame_scan_task [of w e path m conv targ eng fus pre] by (simp add: frame_def)

lemma scan_task_printed [simp]:
  "printed (console (snd (scan_task e path m conv targ eng fus pre w))) = printed (console w)"
  using frame_scan_task [of w e path m conv targ eng fus pre] by (simp add: frame_def)

lemma submit_loop_inv:
  assumes "bar_inv (bar c)" "\<not> p_finished (bar c)" "p_completed (bar c) < p_total (bar c)"
    "int (length tasks) = p_completed (bar c)"
  shows "bar_inv (bar (fst (snd (submit_loop e a fs tasks c w))))
     \<and> p_total (bar (fst (snd (submit_loop e a fs tasks c w)))) = p_total (bar c)
     \<and> int (length (fst (submit_loop e a fs tasks c w)))
         = p_completed (bar (fst (snd (submit_loop e a fs tasks c w))))
     \<and> bars (snd (snd (submit_loop e a fs tasks c w))) = bars w"
  using assms
proof (induction fs arbitrary: c w tasks)
  case Nil
  then show ?case by simp
next
  case (Cons path rest)
  let ?w0 = "w\<lparr>submitted := submitted w @ [path]\<rparr>"
  let ?r = "scan_task e path (mode a) (convert a) (target a) (engine a) 6 (prefix_arg a) ?w0"
  let ?c = "c\<lparr>file_count := file_count c + 1, bar := update_advance (bar c) 1\<rparr>"
  have inv: "bar_inv (bar ?c)"
    using Cons.prems by (simp add: update_advance_inv)
  show ?case
  proof (cases "p_finished (bar ?c)")
    case True
    with Cons.prems inv show ?thesis
      by (simp add: case_prod_unfold Let_def)
  next
    case False
    then have lt: "p_completed (bar ?c) < p_total (bar ?c)"
      by (simp add: update_advance_def Let_def)
    have len: "int (length (tasks @ [fst ?r])) = p_completed (bar ?c)"
      using Cons.prems by simp
    from Cons.IH [OF inv False lt len, of "snd ?r"] False
    show ?thesis
      by (simp add: case_prod_unfold Let_def)
  qed
qed

lemma drain_inv:
  "bar_inv p \<Longrightarrow> p_completed p + int (length nr) \<le> p_total p \<Longrightarrow>
   bar_inv (fst (drain p nr ops)) \<and> p_total (fst (drain p nr ops)) = p_total p"
proof (induction p nr ops rule: drain.induct)
  case (1 p not_ready ops)
  show ?case
  proof (cases "p_finished p")
    case True
    with "1.prems" show ?thesis by (subst (1 2) drain.simps) simp
  next
    case nf: False
    show ?thesis
    proof (cases "length not_ready < eta_step")
      case True
      have i: "bar_inv (update_completed p (p_total p))"
        using "1.prems" by (intro update_completed_inv) (simp_all add: bar_inv_def)
      have f: "p_finished (update_completed p (p_total p))"
        by (simp add: update_completed_def)
      have "drain p not_ready ops = drain (update_completed p (p_total p)) not_ready ops"
        using nf True by (subst drain.simps) simp
      also have "\<dots> = (update_completed p (p_total p), not_ready, ops)"
        using f by (subst drain.simps) simp
      finally show ?thesis using i by simp
    next
      case False
      let ?p = "update_advance p (int (length (take eta_step not_ready)))"
      have l: "length (take eta_step not_ready) = eta_step"
        using False by simp
      have i: "bar_inv ?p"
        using "1.prems" False l by (intro update_advance_inv) simp_all
      have c: "p_completed ?p + int (length (drop eta_step not_ready)) \<le> p_total ?p"
        using "1.prems" False l by simp
      have eq: "drain p not_ready ops =
                  drain ?p (drop eta_step not_ready) (ops @ [RayWait (length not_ready) eta_step])"
        using nf False by (subst drain.simps) (simp add: ray_wait_def)
      have rw: "(take eta_step not_ready, drop eta_step not_ready)
                  = ray_wait not_ready eta_step"
        by (simp add: ray_wait_def)
      from "1.IH"(2) [OF nf False rw i c] eq
      show ?thesis by simp
    qed
  qed
qed

lemma reload_log_same:
  "bars (snd (reload_log e a f fc fl w)) = bars w
   \<and> submitted (snd (reload_log e a f fc fl w)) = submitted w
   \<and> pool (snd (reload_log e a f fc fl w)) = pool w
   \<and> printed (console (snd (reload_log e a f fc fl w))) = printed (console w)"
  by (simp add: reload_log_def echo_def Let_def printed_append split: option.splits)

lemma seam_output_same:
  "bars (seam_output e od w) = bars w \<and> submitted (seam_output e od w) = submitted w
   \<and> pool (seam_output e od w) = pool w
   \<and> printed (console (seam_output e od w)) = printed (console w)"
  by (simp add: seam_output_def echo_def printed_append split: option.splits)

lemma make_report_same:
  "bars (snd (make_report e a od w)) = bars w
   \<and> submitted (snd (make_report e a od w)) = submitted w
   \<and> pool (snd (make_report e a od w)) = pool w
   \<and> printed (console (snd (make_report e a od w))) = printed (console w)"
  by (simp add: make_report_def echo_def Let_def printed_append split: sum.splits json.splits)

lemma make_filter_same:
  "bars (snd (make_filter e a od w)) = bars w
   \<and> submitted (snd (make_filter e a od w)) = submitted w
   \<and> pool (snd (make_filter e a od w)) = pool w
   \<and> printed (console (snd (make_filter e a od w))) = printed (console w)"
  by (simp add: make_filter_def echo_def Let_def printed_append split: sum.splits json.splits)

lemma finalize_same:
  "bars (snd (finalize e a f od ld fc fl w)) = bars w
   \<and> submitted (snd (finalize e a f od ld fc fl w)) = submitted w
   \<and> pool (snd (finalize e a f od ld fc fl w)) = pool w"
  by (simp add: finalize_def case_prod_unfold Let_def echo_def reload_log_same
      seam_output_same make_report_same make_filter_same split: option.splits)

lemma summary_processed:
  "field (field (JObj (summary e f ld fc od rd flt)) ''Assessment Task'') ''Processed'' = JInt fc"
  by (simp add: summary_def get_def)

lemma finalize_printed:
  "(fst (finalize e a f od ld fc fl w) = Inr () \<longrightarrow>
      (\<exists>od' rd flt. printed (console (snd (finalize e a f od ld fc fl w)))
         = printed (console w) @ [JObj (summary e f ld fc od' rd flt)]))
   \<and> (fst (finalize e a f od ld fc fl w) \<noteq> Inr () \<longrightarrow>
      printed (console (snd (finalize e a f od ld fc fl w))) = printed (console w))"
  by (simp add: finalize_def case_prod_unfold Let_def echo_def reload_log_same
      seam_output_same make_report_same make_filter_same printed_append split: option.splits)
    blast

lemma submit_loop_take:
  assumes "\<not> p_finished (bar c)" "p_completed (bar c) < p_total (bar c)"
  shows "submitted (snd (snd (submit_loop e a fs tasks c w)))
           = submitted w @ take (nat (p_total (bar c) - p_completed (bar c))) fs
     \<and> file_count (fst (snd (submit_loop e a fs tasks c w)))
           = file_count c
             + int (min (nat (p_total (bar c) - p_completed (bar c))) (length fs))
     \<and> length (fst (submit_loop e a fs tasks c w))
           = length tasks + min (nat (p_total (bar c) - p_completed (bar c))) (length fs)
     \<and> failed (fst (snd (submit_loop e a fs tasks c w))) = failed c
     \<and> printed (console (snd (snd (submit_loop e a fs tasks c w)))) = printed (console w)
     \<and> pool (snd (snd (submit_loop e a fs tasks c w))) = pool w"
  using assms
proof (induction fs arbitrary: c w tasks)
  case Nil
  then show ?case by simp
next
  case (Cons path rest)
  let ?w0 = "w\<lparr>submitted := submitted w @ [path]\<rparr>"
  let ?r = "scan_task e path (mode a) (convert a) (target a) (engine a) 6 (prefix_arg a) ?w0"
  let ?c = "c\<lparr>file_count := file_count c + 1, bar := update_advance (bar c) 1\<rparr>"
  let ?k = "nat (p_total (bar c) - p_completed (bar c))"
  from Cons.prems have k: "?k = Suc (nat (p_total (bar c) - (p_completed (bar c) + 1)))"
    by simp
  show ?case
  proof (cases "p_finished (bar ?c)")
    case True
    with Cons.prems have "p_total (bar c) = p_completed (bar c) + 1"
      by (simp add: update_advance_def Let_def)
    with True show ?thesis
      by (simp add: case_prod_unfold Let_def)
  next
    case False
    then have lt: "p_completed (bar ?c) < p_total (bar ?c)"
      by (simp add: update_advance_def Let_def)
    from Cons.IH [OF False lt, of "tasks @ [fst ?r]" "snd ?r"] False k
    show ?thesis
      by (simp add: case_prod_unfold Let_def)
  qed
qed

lemma per_file_dispatch_bars:
  assumes "0 < ft"
  shows "\<exists>new. bars (snd (per_file_dispatch e a ft fs w)) = bars w @ new
           \<and> list_all (\<lambda>p. bar_inv p \<and> p_total p = ft) new"
proof -
  let ?c0 = "\<lparr>file_count = 0, failed = 0, batch_now = batch a, bar = add_task ft\<rparr>"
  let ?s = "submit_loop e a fs [] ?c0 w"
  let ?tasks = "fst ?s" and ?c1 = "fst (snd ?s)" and ?w1 = "snd (snd ?s)"
  have i0: "bar_inv (bar ?c0)" "\<not> p_finished (bar ?c0)" "p_completed (bar ?c0) < p_total (bar ?c0)"
    "int (length ([]::task_result list)) = p_completed (bar ?c0)"
    using assms by (simp_all add: add_task_inv, simp_all add: add_task_def)
  from submit_loop_inv [OF i0, of e a fs w]
  have s: "bar_inv (bar ?c1)" "p_total (bar ?c1) = ft"
    "int (length ?tasks) = p_completed (bar ?c1)" "bars ?w1 = bars w"
    by (simp_all add: add_task_def)
  then have len: "int (length ?tasks) \<le> ft"
    by (simp add: bar_inv_def)
  let ?d = "drain (add_task ft) (snd (ray_wait ?tasks 1)) [RayWait (length ?tasks) 1]"
  have d0: "bar_inv (add_task ft)"
    using assms by (simp add: add_task_inv)
  have d1: "p_completed (add_task ft) + int (length (snd (ray_wait ?tasks 1))) \<le> p_total (add_task ft)"
    using len assms by (simp add: add_task_def ray_wait_def)
  from drain_inv [OF d0 d1, of "[RayWait (length ?tasks) 1]"]
  have d: "bar_inv (fst ?d)" "p_total (fst ?d) = ft"
    by (simp_all add: add_task_def)
  show ?thesis
  proof (cases "?tasks = []")
    case True
    with s show ?thesis
      by (simp add: per_file_dispatch_def Let_def case_prod_unfold)
  next
    case False
    with s d show ?thesis
      by (simp add: per_file_dispatch_def Let_def case_prod_unfold split: sum.splits)
  qed
qed

lemma run_dispatches:
  assumes "path_exists e (input_folder a)" "limit_total (limit a) (found_total e a) \<noteq> 0"
  shows "run e a w =
           (case dispatch e a (limit_total (limit a) (found_total e a))
                   (write_log_init (write_csv_init (announce e a w))) of
              (Inl ex, w4) \<Rightarrow> (Inl ex, w4)
            | (Inr d, w4) \<Rightarrow>
                finalize e a (validate_path e (input_folder a)) (output_path e a)
                  (log_path e a) (d_file_count d) (d_failed d) w4)"
  using assms by (simp add: run_def Let_def)

lemma started_same:
  "bars (write_log_init (write_csv_init (announce e a w))) = bars w
   \<and> submitted (write_log_init (write_csv_init (announce e a w))) = submitted w
   \<and> pool (write_log_init (write_csv_init (announce e a w))) = pool w
   \<and> printed (console (write_log_init (write_csv_init (announce e a w)))) = printed (console w)"
  by (simp add: write_log_init_def write_csv_init_def announce_def echo_def Let_def
      printed_append)

lemma per_file_dispatch_facts:
  assumes "0 < ft"
  shows "submitted (snd (per_file_dispatch e a ft fs w)) = submitted w @ take (nat ft) fs
     \<and> printed (console (snd (per_file_dispatch e a ft fs w))) = printed (console w)
     \<and> (\<forall>d. fst (per_file_dispatch e a ft fs w) = Inr d \<longrightarrow>
           d_file_count d = int (min (nat ft) (length fs)) \<and> d_failed d = 0)"
proof -
  let ?c0 = "\<lparr>file_count = 0, failed = 0, batch_now = batch a, bar = add_task ft\<rparr>"
  have i0: "\<not> p_finished (bar ?c0)" "p_completed (bar ?c0) < p_total (bar ?c0)"
    using assms by (simp_all add: add_task_def)
  from submit_loop_take [OF i0, of e a fs "[]" w]
  show ?thesis
    by (simp add: per_file_dispatch_def Let_def case_prod_unfold add_task_def
        split: sum.splits)
qed

lemma per_file_dispatch_pool:
  assumes "fst (submit_loop e a fs []
                  \<lparr>file_count = 0, failed = 0, batch_now = batch a, bar = add_task ft\<rparr> w) = tasks"
    and "tasks \<noteq> []"
    and "drain (add_task ft) (snd (ray_wait tasks 1)) [RayWait (length tasks) 1] = (p', rest, ops')"
  shows "pool (snd (per_file_dispatch e a ft fs w))
           = pool (snd (snd (submit_loop e a fs []
                \<lparr>file_count = 0, failed = 0, batch_now = batch a, bar = add_task ft\<rparr> w)))
             @ ops' @ [RayGet (length rest)]
     \<and> (\<forall>ex. fst (per_file_dispatch e a ft fs w) = Inl ex \<longleftrightarrow> ray_get rest = Inl ex)"
  using assms
  by (auto simp: per_file_dispatch_def Let_def case_prod_unfold split: sum.splits)

lemma files_3: "files_n 3 = [''data/f0'', ''data/f1'', ''data/f2'']"
  by code_simp

lemma reload_log_bound:
  assumes "write_log_finish e = None" "json_load e = None" "logs w = Some entries"
  shows "reload_log e a f fc fl w =
           (Some (count_failed entries fl),
            (case json_dump e of
               Some ex \<Rightarrow> echo (FailedReloadLog (str_exn ex)) w
             | None \<Rightarrow> w\<lparr>log_sealed :=
                          Some (log_out e a f fc (count_failed entries fl) entries)\<rparr>))"
  using assms by (simp add: reload_log_def Let_def split: option.splits)

lemma finalize_emits:
  assumes "write_log_finish e = None" "json_load e = None" "logs w = Some entries"
  shows "finalize e a f od0 ld fc fl w =
           (let od = (if fc = count_failed entries fl then None else Some od0);
                w1 = snd (reload_log e a f fc fl w);
                w2 = seam_output e od w1;
                rep = make_report e a od w2;
                flt = make_filter e a od (snd rep)
            in (Inr (),
                (snd flt)\<lparr>console := console (snd flt)
                   @ [SummaryHeader,
                      PrintJson (JObj (summary e f ld fc od (fst rep) (fst flt))),
                      TaskFinished]\<rparr>))"
  by (simp add: finalize_def reload_log_bound [OF assms] Let_def case_prod_unfold echo_def)





lemma summary_fields:
  "field (JObj (summary e f ld fc od rd flt)) ''Total process time'' = JStr (process_time e)"
  "field (JObj (summary e f ld fc od rd flt)) ''System throughput'' = JStr (throughput e fc)"
  "field (field (JObj (summary e f ld fc od rd flt)) ''Assessment Task'') ''Input'' = JStr f"
  "field (field (JObj (summary e f ld fc od rd flt)) ''Assessment Task'') ''Output''
     = json_of_path od"
  "field (field (JObj (summary e f ld fc od rd flt)) ''Assessment Task'') ''Report'' = rd"
  "field (field (JObj (summary e f ld fc od rd flt)) ''Assessment Task'') ''Log'' = JStr ld"
  "keys (field (JObj (summary e f ld fc od rd flt)) ''Assessment Task'')
     = [''Processed'', ''Input'', ''Output'', ''Report'', ''Log'']"
  "keys (JObj (summary e f ld fc od rd flt))
     = [''Total process time'', ''System throughput'', ''Assessment Task'']
       @ (if truthy flt then [''Outlier Filter''] else [])"
  by (simp_all add: summary_def get_def)




lemma seam_output_warns:
  "\<exists>p. console (seam_output e od w) = console w @ p
     \<and> (\<forall>ex. truthy_path od \<and> write_csv_seam e = Some ex \<longrightarrow> FailedSeam (str_exn ex) \<in> set p)"
  by (auto simp: seam_output_def echo_def split: option.splits)

lemma make_report_warns:
  "\<exists>p. console (snd (make_report e a od w)) = console w @ p
     \<and> (\<forall>ex. truthy_path od \<and> reporting a
              \<and> generate_report e (the od) (cwd a) (prefix_arg a) = Inl ex \<longrightarrow>
            FailedReport (str_exn ex) \<in> set p \<and> fst (make_report e a od w) = JNull)"
  by (auto simp: make_report_def Let_def echo_def split: sum.splits json.splits)

lemma make_filter_warns:
  "\<exists>p. console (snd (make_filter e a od w)) = console w @ p
     \<and> (\<forall>ex. truthy_path od \<and> (attributes a \<noteq> [] \<or> query a \<noteq> [] \<or> sort_by a \<noteq> [])
              \<and> filter_output e (the od) (attributes a) (query a) (sort_by a) (cwd a)
                   (prefix_arg a) = Inl ex \<longrightarrow>
            FailedFilter (str_exn ex) \<in> set p \<and> fst (make_filter e a od w) = JNull)"
  by (auto simp: make_filter_def Let_def echo_def split: sum.splits json.splits)

lemma reload_log_warns:
  assumes "write_log_finish e = None" "json_load e = None" "logs w = Some entries"
  shows "\<exists>p. console (snd (reload_log e a f fc fl w)) = console w @ p
     \<and> (\<forall>ex. json_dump e = Some ex \<longrightarrow> FailedReloadLog (str_exn ex) \<in> set p)"
  by (auto simp: reload_log_bound [OF assms] echo_def split: option.splits)

lemma summary_no_filter:
  "''Outlier Filter'' \<notin> set (keys (JObj (summary e f ld fc od rd JNull)))"
  by (simp add: summary_def)


subsection \<open>The per-batch loop as a fold over the outcomes of its tasks\<close>

text \<open>
  What a task returns does not depend on the artifacts it appends to, so the outcome of
  each batch is a function of its folder, and the loop of lines 165 to 191 folds
  \<open>batch_step\<close> over the folders.
\<close>

lemma scan_task_records_fst:
  "fst (scan_task_records e path pre rs acc w) = fst (scan_task_records e path pre rs acc w')"
proof (induction rs arbitrary: acc w w')
  case Nil
  show ?case by simp
next
  case (Cons x rs)
  show ?case
  proof (cases x)
    case (JObj r)
    let ?r2 = "reconstruct_filepath e (fix_filepath e r) pre"
    show ?thesis
    proof (cases "truthy (get ?r2 ''log'')")
      case True
      let ?ld = "[(''folder'', JStr path), (''logs'', get ?r2 ''log'')]"
      from Cons.IH [of "acc @ [pop ?r2 ''log'']" "write_csv (pop ?r2 ''log'') (write_log ?ld w)"
                       "write_csv (pop ?r2 ''log'') (write_log ?ld w')"]
      show ?thesis using JObj True by (simp add: Let_def)
    next
      case False
      from Cons.IH [of "acc @ [?r2]" "write_csv ?r2 w" "write_csv ?r2 w'"]
      show ?thesis using JObj False by (simp add: Let_def)
    qed
  qed simp_all
qed

lemma scan_task_logs_fst:
  "fst (scan_task_logs path ls w) = fst (scan_task_logs path ls w')"
proof (induction ls arbitrary: w w')
  case Nil
  show ?case by simp
next
  case (Cons x ls)
  show ?case
  proof (cases x)
    case (JObj l)
    from Cons.IH [of "write_log (update l ''file'' (JStr path)) w"
                     "write_log (update l ''file'' (JStr path)) w'"]
    show ?thesis using JObj by simp
  qed simp_all
qed

lemma scan_task_fst:
  "fst (scan_task e path m conv targ eng fus pre w)
     = fst (scan_task e path m conv targ eng fus pre w')"
proof (cases "batch_policy m eng")
  case True
  then show ?thesis
    using scan_task_records_fst [of e path pre _ "[]" w w']
    by (simp add: scan_task_def split: sum.splits json.splits)
next
  case False
  have l: "fst (scan_task_logs path ls w) = fst (scan_task_logs path ls w')" for ls
    by (rule scan_task_logs_fst)
  from False show ?thesis
    by (auto simp: scan_task_def Let_def case_prod_unfold l split: sum.splits json.splits)
qed

lemma task_result_of_any:
  "fst (scan_task e folder (mode a) (convert a) (target a) (engine a) (fusion a)
          (prefix_arg a) w) = task_result_of e a folder"
  unfolding task_result_of_def by (rule scan_task_fst)

lemma batch_fold_Nil [simp]: "batch_fold e a ft c [] = c"
  by (simp add: batch_fold_def)

lemma batch_fold_Cons [simp]:
  "batch_fold e a ft c (f # fs) = batch_fold e a ft (batch_step ft (task_ok e a f) c) fs"
  by (simp add: batch_fold_def)

lemma per_batch_loop_fold:
  "fst (per_batch_loop e a ft fs c w) = Inr c' \<longleftrightarrow>
     list_all (task_returns e a) fs \<and> c' = batch_fold e a ft c fs"
proof (induction fs arbitrary: c w)
  case Nil
  show ?case by auto
next
  case (Cons folder rest)
  let ?w0 = "w\<lparr>submitted := submitted w @ [folder]\<rparr>"
  let ?r = "scan_task e folder (mode a) (convert a) (target a) (engine a) (fusion a)
              (prefix_arg a) ?w0"
  have res: "fst ?r = task_result_of e a folder"
    by (rule task_result_of_any)
  show ?case
  proof (cases "task_result_of e a folder")
    case (Inl ex)
    with res show ?thesis
      by (simp add: case_prod_unfold task_returns_def)
  next
    case (Inr ret)
    with res Cons.IH show ?thesis
      by (simp add: case_prod_unfold task_returns_def task_ok_def)
  qed
qed

lemma per_batch_loop_bar:
  "fst (per_batch_loop e a ft fs c w) = Inr c' \<Longrightarrow>
   bars (snd (per_batch_loop e a ft fs c w)) = bars w @ [bar c']"
proof (induction fs arbitrary: c w)
  case Nil
  then show ?case by simp
next
  case (Cons folder rest)
  let ?w0 = "w\<lparr>submitted := submitted w @ [folder]\<rparr>"
  let ?r = "scan_task e folder (mode a) (convert a) (target a) (engine a) (fusion a)
              (prefix_arg a) ?w0"
  show ?case
  proof (cases "fst ?r")
    case (Inl ex)
    with Cons.prems show ?thesis by (simp add: case_prod_unfold)
  next
    case (Inr ret)
    let ?c = "batch_step ft (truthy_result ret) c"
    let ?w1 = "(snd ?r)\<lparr>pool := pool (snd ?r) @ [RayWait 1 1, RayGet 1]\<rparr>"
    have eq: "per_batch_loop e a ft (folder # rest) c w = per_batch_loop e a ft rest ?c ?w1"
      using Inr by (simp add: case_prod_unfold)
    from Cons.prems have "fst (per_batch_loop e a ft rest ?c ?w1) = Inr c'"
      unfolding eq .
    from Cons.IH [OF this] show ?thesis
      unfolding eq by simp
  qed
qed

lemma per_batch_loop_printed:
  "printed (console (snd (per_batch_loop e a ft fs c w))) = printed (console w)"
proof (induction fs arbitrary: c w)
  case Nil
  show ?case by simp
next
  case (Cons folder rest)
  let ?w0 = "w\<lparr>submitted := submitted w @ [folder]\<rparr>"
  let ?r = "scan_task e folder (mode a) (convert a) (target a) (engine a) (fusion a)
              (prefix_arg a) ?w0"
  have p: "printed (console (snd ?r)) = printed (console w)"
    by simp
  show ?case
  proof (cases "fst ?r")
    case (Inl ex)
    with p show ?thesis by (simp add: case_prod_unfold)
  next
    case (Inr ret)
    let ?c = "batch_step ft (truthy_result ret) c"
    let ?w1 = "(snd ?r)\<lparr>pool := pool (snd ?r) @ [RayWait 1 1, RayGet 1]\<rparr>"
    have eq: "per_batch_loop e a ft (folder # rest) c w = per_batch_loop e a ft rest ?c ?w1"
      using Inr by (simp add: case_prod_unfold)
    from Cons.IH [of ?c ?w1] p show ?thesis
      unfolding eq by simp
  qed
qed

lemma batch_step_bar_delta:
  "p_completed (bar (batch_step ft ok c)) - file_count (batch_step ft ok c)
     = p_completed (bar c) - file_count c"
  by (simp add: batch_step_def Let_def)

lemma batch_fold_bar_delta:
  "p_completed (bar (batch_fold e a ft c fs)) - file_count (batch_fold e a ft c fs)
     = p_completed (bar c) - file_count c"
  by (induction fs arbitrary: c) (simp_all add: batch_step_bar_delta)

lemma batch_fold_total [simp]:
  "p_total (bar (batch_fold e a ft c fs)) = p_total (bar c)"
  by (induction fs arbitrary: c) (simp_all add: batch_step_def Let_def)

lemma ok_count_Cons:
  "ok_count e a (f # fs) = (if task_ok e a f then 1 else 0) + ok_count e a fs"
  by (simp add: ok_count_def)

lemma fail_count_Cons:
  "fail_count e a (f # fs) = (if task_ok e a f then 0 else 1) + fail_count e a fs"
  by (simp add: fail_count_def)

lemma batch_fold_file_count:
  assumes "0 \<le> ft"
    and "(b * s \<le> ft \<and> file_count c = b * s \<and> batch_now c = b)
         \<or> (ft < b * s \<and> 0 < b \<and> file_count c = ft \<and> 0 \<le> batch_now c)"
  shows "file_count (batch_fold e a ft c fs) = min (b * (s + ok_count e a fs)) ft"
  using assms(2)
proof (induction fs arbitrary: c s)
  case Nil
  then show ?case by (auto simp: ok_count_def)
next
  case (Cons f fs)
  show ?case
  proof (cases "task_ok e a f")
    case False
    have inv: "(b * s \<le> ft \<and> file_count (batch_step ft False c) = b * s
                 \<and> batch_now (batch_step ft False c) = b)
         \<or> (ft < b * s \<and> 0 < b \<and> file_count (batch_step ft False c) = ft
             \<and> 0 \<le> batch_now (batch_step ft False c))"
      using Cons.prems by (simp add: batch_step_def)
    from Cons.IH [OF inv] False show ?thesis
      by (simp add: ok_count_Cons)
  next
    case True
    have inv: "(b * (s + 1) \<le> ft \<and> file_count (batch_step ft True c) = b * (s + 1)
                 \<and> batch_now (batch_step ft True c) = b)
         \<or> (ft < b * (s + 1) \<and> 0 < b \<and> file_count (batch_step ft True c) = ft
             \<and> 0 \<le> batch_now (batch_step ft True c))"
    proof -
      from Cons.prems show ?thesis
      proof
        assume u: "b * s \<le> ft \<and> file_count c = b * s \<and> batch_now c = b"
        show ?thesis
        proof (cases "ft < b * (s + 1)")
          case True
          with u have "0 < b" by (simp add: algebra_simps)
          with u True show ?thesis
            by (simp add: batch_step_def Let_def algebra_simps)
        next
          case False
          with u show ?thesis
            by (simp add: batch_step_def Let_def algebra_simps)
        qed
      next
        assume k: "ft < b * s \<and> 0 < b \<and> file_count c = ft \<and> 0 \<le> batch_now c"
        then have "ft < b * (s + 1)" by (simp add: algebra_simps)
        with k show ?thesis
          by (auto simp: batch_step_def Let_def)
      qed
    qed
    from Cons.IH [OF inv] True show ?thesis
      by (simp add: ok_count_Cons algebra_simps)
  qed
qed

lemma batch_fold_failed:
  assumes "batch_now c = b" and "file_count c = b * s"
    and "\<forall>k. s < k \<and> k < s + int (length fs) \<longrightarrow> b * k \<le> ft"
  shows "failed (batch_fold e a ft c fs) = failed c + b * fail_count e a fs"
  using assms
proof (induction fs arbitrary: c s)
  case Nil
  then show ?case by (simp add: fail_count_def)
next
  case (Cons f fs)
  show ?case
  proof (cases "task_ok e a f")
    case False
    let ?c = "batch_step ft False c"
    have 1: "batch_now ?c = b" and 2: "file_count ?c = b * s"
      using Cons.prems by (simp_all add: batch_step_def)
    have 3: "\<forall>k. s < k \<and> k < s + int (length fs) \<longrightarrow> b * k \<le> ft"
      using Cons.prems(3) by simp
    from Cons.IH [OF 1 2 3] False Cons.prems(1) show ?thesis
      by (simp add: fail_count_Cons batch_step_def algebra_simps)
  next
    case True
    show ?thesis
    proof (cases "fs = []")
      case Nil: True
      with True show ?thesis
        by (simp add: fail_count_Cons fail_count_def batch_step_def Let_def)
    next
      case False
      then have "s < s + 1 \<and> s + 1 < s + int (length (f # fs))"
        by (cases fs) simp_all
      with Cons.prems(3) have nc: "b * (s + 1) \<le> ft" by blast
      let ?c = "batch_step ft True c"
      have 1: "batch_now ?c = b" and 2: "file_count ?c = b * (s + 1)"
        and f: "failed ?c = failed c"
        using Cons.prems(1,2) nc by (simp_all add: batch_step_def Let_def algebra_simps)
      have 3: "\<forall>k. s + 1 < k \<and> k < s + 1 + int (length fs) \<longrightarrow> b * k \<le> ft"
        using Cons.prems(3) by simp
      from Cons.IH [OF 1 2 3] True f show ?thesis
        by (simp add: fail_count_Cons)
    qed
  qed
qed

lemma batch_fold_failed_none:
  assumes "ok_count e a fs = 0"
  shows "failed (batch_fold e a ft c fs) = failed c + batch_now c * fail_count e a fs"
  using assms
proof (induction fs arbitrary: c)
  case Nil
  then show ?case by (simp add: fail_count_def)
next
  case (Cons f fs)
  have "0 \<le> ok_count e a fs"
    by (simp add: ok_count_def)
  with Cons.prems have nok: "\<not> task_ok e a f" and r: "ok_count e a fs = 0"
    by (auto simp: ok_count_Cons split: if_splits)
  from Cons.IH [OF r, of "batch_step ft False c"] nok show ?case
    by (simp add: fail_count_Cons batch_step_def algebra_simps)
qed

lemma per_batch_loop_submitted_exact:
  "submitted (snd (per_batch_loop e a ft fs c w))
     = submitted w @ take (Suc (length (takeWhile (task_returns e a) fs))) fs"
proof (induction fs arbitrary: c w)
  case Nil
  show ?case by simp
next
  case (Cons folder rest)
  let ?w0 = "w\<lparr>submitted := submitted w @ [folder]\<rparr>"
  let ?r = "scan_task e folder (mode a) (convert a) (target a) (engine a) (fusion a)
              (prefix_arg a) ?w0"
  have res: "fst ?r = task_result_of e a folder"
    by (rule task_result_of_any)
  show ?case
  proof (cases "fst ?r")
    case (Inl ex)
    with res have "task_result_of e a folder = Inl ex"
      by simp
    then have "\<not> task_returns e a folder"
      by (simp add: task_returns_def)
    with Inl show ?thesis
      by (simp add: case_prod_unfold)
  next
    case (Inr ret)
    let ?c = "batch_step ft (truthy_result ret) c"
    let ?w1 = "(snd ?r)\<lparr>pool := pool (snd ?r) @ [RayWait 1 1, RayGet 1]\<rparr>"
    from Inr res have "task_result_of e a folder = Inr ret"
      by simp
    then have t: "task_returns e a folder"
      by (simp add: task_returns_def)
    have eq: "per_batch_loop e a ft (folder # rest) c w = per_batch_loop e a ft rest ?c ?w1"
      using Inr by (simp add: case_prod_unfold)
    from Cons.IH [of ?c ?w1] t show ?thesis
      unfolding eq by simp
  qed
qed

lemma per_batch_loop_bars_exact:
  "bars (snd (per_batch_loop e a ft fs c w))
     = bars w @ [bar (batch_fold e a ft c (takeWhile (task_returns e a) fs))]"
proof (induction fs arbitrary: c w)
  case Nil
  show ?case by simp
next
  case (Cons folder rest)
  let ?w0 = "w\<lparr>submitted := submitted w @ [folder]\<rparr>"
  let ?r = "scan_task e folder (mode a) (convert a) (target a) (engine a) (fusion a)
              (prefix_arg a) ?w0"
  have res: "fst ?r = task_result_of e a folder"
    by (rule task_result_of_any)
  show ?case
  proof (cases "fst ?r")
    case (Inl ex)
    with res have "task_result_of e a folder = Inl ex"
      by simp
    then have "\<not> task_returns e a folder"
      by (simp add: task_returns_def)
    with Inl show ?thesis
      by (simp add: case_prod_unfold)
  next
    case (Inr ret)
    let ?c = "batch_step ft (truthy_result ret) c"
    let ?w1 = "(snd ?r)\<lparr>pool := pool (snd ?r) @ [RayWait 1 1, RayGet 1]\<rparr>"
    from Inr res have "task_result_of e a folder = Inr ret"
      by simp
    then have t: "task_returns e a folder" and k: "task_ok e a folder = truthy_result ret"
      by (simp_all add: task_returns_def task_ok_def)
    have eq: "per_batch_loop e a ft (folder # rest) c w = per_batch_loop e a ft rest ?c ?w1"
      using Inr by (simp add: case_prod_unfold)
    from Cons.IH [of ?c ?w1] t k show ?thesis
      unfolding eq by simp
  qed
qed

lemma dispatch_batch_result:
  assumes "batch_policy (mode a) (engine a)"
  shows "fst (dispatch e a ft w) = Inr d \<longleftrightarrow>
           list_all (task_returns e a) (input_folders e a)
           \<and> d = \<lparr>d_file_count = file_count (batch_fold e a ft
                      \<lparr>file_count = 0, failed = 0, batch_now = batch a, bar = add_task ft\<rparr>
                      (input_folders e a)),
                  d_failed = failed (batch_fold e a ft
                      \<lparr>file_count = 0, failed = 0, batch_now = batch a, bar = add_task ft\<rparr>
                      (input_folders e a))\<rparr>"
proof -
  let ?c0 = "\<lparr>file_count = 0, failed = 0, batch_now = batch a, bar = add_task ft\<rparr>"
  let ?w1 = "w\<lparr>temp_folders := temp_folders w @ [temp_folder e]\<rparr>"
  let ?l = "per_batch_loop e a ft (input_folders e a) ?c0 ?w1"
  show ?thesis
  proof (cases "fst ?l")
    case (Inl ex)
    have "\<not> list_all (task_returns e a) (input_folders e a)"
    proof
      assume "list_all (task_returns e a) (input_folders e a)"
      with per_batch_loop_fold [of e a ft "input_folders e a" ?c0 ?w1
                                  "batch_fold e a ft ?c0 (input_folders e a)"]
      have "fst ?l = Inr (batch_fold e a ft ?c0 (input_folders e a))"
        by simp
      with Inl show False by simp
    qed
    with Inl assms show ?thesis
      by (simp add: dispatch_def per_batch_dispatch_def input_folders_def Let_def
          case_prod_unfold)
  next
    case (Inr c')
    with per_batch_loop_fold [of e a ft "input_folders e a" ?c0 ?w1 c']
    have "list_all (task_returns e a) (input_folders e a)"
      and "c' = batch_fold e a ft ?c0 (input_folders e a)"
      by simp_all
    with Inr assms show ?thesis
      by (auto simp: dispatch_def per_batch_dispatch_def input_folders_def Let_def
          case_prod_unfold)
  qed
qed

lemma dispatch_batch_world:
  assumes "batch_policy (mode a) (engine a)"
  shows "submitted (snd (dispatch e a ft w))
           = submitted w @ take (Suc (length (takeWhile (task_returns e a) (input_folders e a))))
                             (input_folders e a)"
    and "bars (snd (dispatch e a ft w))
           = bars w @ [bar (batch_fold e a ft
                 \<lparr>file_count = 0, failed = 0, batch_now = batch a, bar = add_task ft\<rparr>
                 (takeWhile (task_returns e a) (input_folders e a)))]"
    and "printed (console (snd (dispatch e a ft w))) = printed (console w)"
proof -
  let ?c0 = "\<lparr>file_count = 0, failed = 0, batch_now = batch a, bar = add_task ft\<rparr>"
  let ?w1 = "w\<lparr>temp_folders := temp_folders w @ [temp_folder e]\<rparr>"
  let ?l = "per_batch_loop e a ft (input_folders e a) ?c0 ?w1"
  have d: "dispatch e a ft w =
             (case ?l of (Inl ex, w2) \<Rightarrow> (Inl ex, w2)
              | (Inr c, w2) \<Rightarrow>
                  (Inr \<lparr>d_file_count = file_count c, d_failed = failed c\<rparr>,
                   w2\<lparr>temp_folders := filter (\<lambda>t. t \<noteq> temp_folder e) (temp_folders w2)\<rparr>))"
    using assms by (simp add: dispatch_def per_batch_dispatch_def input_folders_def Let_def)
  from per_batch_loop_submitted_exact [of e a ft "input_folders e a" ?c0 ?w1]
  show "submitted (snd (dispatch e a ft w))
           = submitted w @ take (Suc (length (takeWhile (task_returns e a) (input_folders e a))))
                             (input_folders e a)"
    by (simp add: d case_prod_unfold split: sum.splits)
  from per_batch_loop_bars_exact [of e a ft "input_folders e a" ?c0 ?w1]
  show "bars (snd (dispatch e a ft w))
           = bars w @ [bar (batch_fold e a ft ?c0
                 (takeWhile (task_returns e a) (input_folders e a)))]"
    by (simp add: d case_prod_unfold split: sum.splits)
  from per_batch_loop_printed [of e a ft "input_folders e a" ?c0 ?w1]
  show "printed (console (snd (dispatch e a ft w))) = printed (console w)"
    by (simp add: d case_prod_unfold split: sum.splits)
qed

lemma batch_fold_inv:
  assumes "bar_inv (bar c)" "p_completed (bar c) = file_count c" "p_total (bar c) = ft"
    and "0 \<le> batch_now c \<or> ok_count e a fs = 0"
  shows "bar_inv (bar (batch_fold e a ft c fs)) \<and> p_total (bar (batch_fold e a ft c fs)) = ft"
proof (cases "0 \<le> batch_now c")
  case True
  have "bar_inv (bar (batch_fold e a ft c fs))
     \<and> p_completed (bar (batch_fold e a ft c fs)) = file_count (batch_fold e a ft c fs)
     \<and> p_total (bar (batch_fold e a ft c fs)) = ft
     \<and> 0 \<le> batch_now (batch_fold e a ft c fs)"
    using assms(1-3) True
  proof (induction fs arbitrary: c)
    case Nil
    then show ?case by simp
  next
    case (Cons f fs)
    from batch_step_inv [OF Cons.prems, of "task_ok e a f"]
    show ?case
      by (simp add: Cons.IH)
  qed
  then show ?thesis by simp
next
  case False
  with assms(4) have z: "ok_count e a fs = 0" by simp
  have "bar (batch_fold e a ft c fs) = bar c"
    using z
  proof (induction fs arbitrary: c)
    case Nil
    show ?case by simp
  next
    case (Cons f fs)
    have nn: "0 \<le> ok_count e a fs"
      by (simp add: ok_count_def)
    from Cons.prems nn have nok: "\<not> task_ok e a f" and r: "ok_count e a fs = 0"
      by (auto simp: ok_count_Cons split: if_splits)
    from Cons.IH [OF r, of "batch_step ft False c"] nok show ?case
      by (simp add: batch_step_def)
  qed
  with assms show ?thesis by simp
qed

lemma ok_count_takeWhile:
  "ok_count e a fs = 0 \<Longrightarrow> ok_count e a (takeWhile P fs) = 0"
proof -
  assume "ok_count e a fs = 0"
  then have "filter (task_ok e a) fs = []"
    by (simp add: ok_count_def)
  then have "\<forall>x \<in> set fs. \<not> task_ok e a x"
    by (simp add: filter_empty_conv)
  then have "\<forall>x \<in> set (takeWhile P fs). \<not> task_ok e a x"
    using set_takeWhileD by fastforce
  then have "filter (task_ok e a) (takeWhile P fs) = []"
    by (simp add: filter_empty_conv)
  then show ?thesis
    by (simp add: ok_count_def)
qed

lemma folders_within_all:
  assumes "folders_within e a ft"
  shows "\<forall>k. 0 < k \<and> k < 0 + int (length (input_folders e a)) \<longrightarrow> batch a * k \<le> ft"
proof (intro allI impI)
  fix k :: int
  assume k: "0 < k \<and> k < 0 + int (length (input_folders e a))"
  then have "nat k \<in> set [1 ..< length (input_folders e a)]"
    by auto
  moreover from assms have "\<forall>n \<in> set [1 ..< length (input_folders e a)]. batch a * int n \<le> ft"
    by (simp add: folders_within_def list_all_iff)
  ultimately have "batch a * int (nat k) \<le> ft"
    by blast
  with k show "batch a * k \<le> ft" by simp
qed

subsection \<open>The partitioner that the spec describes\<close>

lemma chunks_length:
  "0 < n \<Longrightarrow> length (chunks n xs) = (length xs + n - 1) div n"
proof (induction n xs rule: chunks.induct)
  case (1 n xs)
  show ?case
  proof (cases "xs = []")
    case True
    with "1.prems" show ?thesis
      by (subst chunks.simps) simp
  next
    case False
    with "1.prems" have ih: "length (chunks n (drop n xs)) = (length (drop n xs) + n - 1) div n"
      by (intro "1.IH") simp_all
    have c: "chunks n xs = take n xs # chunks n (drop n xs)"
      using False "1.prems" by (subst chunks.simps) simp
    show ?thesis
    proof (cases "length xs \<le> n")
      case True
      from False have "Suc 0 \<le> length xs"
        by (cases xs) simp_all
      with True have "n * 1 \<le> length xs + n - 1" and "length xs + n - 1 < n * Suc 1"
        by arith+
      then have "(length xs + n - 1) div n = 1"
        by (rule div_nat_eqI)
      with True ih "1.prems" show ?thesis
        by (simp add: c)
    next
      case gt: False
      define k where "k = length xs - 1"
      from gt have a: "length xs + n - 1 = k + n"
        and b: "length (drop n xs) + n - 1 = k"
        by (simp_all add: k_def)
      have d: "Suc (k div n) = (k + n) div n"
        using "1.prems" div_add_self2 [of n k] by simp
      have "length (chunks n xs) = Suc (length (chunks n (drop n xs)))"
        by (simp add: c)
      also have "\<dots> = Suc ((length (drop n xs) + n - 1) div n)"
        by (simp only: ih)
      also have "\<dots> = Suc (k div n)"
        by (simp only: b)
      also have "\<dots> = (k + n) div n"
        by (rule d)
      also have "\<dots> = (length xs + n - 1) div n"
        by (simp only: a)
      finally show ?thesis .
    qed
  qed
qed

lemma split_folders_within:
  assumes "split_input_folder e = (\<lambda>folder temp exts b pat lim.
             split_folders (iter_matching_files e folder pat exts) temp b lim)"
  shows "folders_within e a (limit_total (limit a) (found_total e a))"
proof -
  let ?files = "file_globs e a"
  let ?xs = "if limit a \<noteq> 0 then take (nat (limit a)) ?files else ?files"
  have len: "length (input_folders e a) = length (chunks (nat (batch a)) ?xs)"
    by (simp add: input_folders_def assms split_folders_def split_batches_def file_globs_def)
  show ?thesis
  proof (cases "0 < batch a")
    case False
    then have "chunks (nat (batch a)) ?xs = []"
      by (subst chunks.simps) simp
    with len show ?thesis
      by (simp add: folders_within_def)
  next
    case True
    then have n: "0 < nat (batch a)" by simp
    have le: "int (length ?xs) \<le> limit_total (limit a) (found_total e a) \<or> ?xs = []"
      by (auto simp: limit_total_def found_total_def file_globs_def)
    have "batch a * int k \<le> limit_total (limit a) (found_total e a)"
      if k: "k \<in> set [1 ..< length (input_folders e a)]" for k
    proof -
      from k len chunks_length [OF n, of ?xs]
      have kl: "k < (length ?xs + nat (batch a) - 1) div nat (batch a)" and k1: "1 \<le> k"
        by simp_all
      then have ne: "?xs \<noteq> []"
        using n by (auto simp: Suc_le_eq)
      from kl have "Suc k \<le> (length ?xs + nat (batch a) - 1) div nat (batch a)"
        by simp
      then have "Suc k * nat (batch a) \<le> length ?xs + nat (batch a) - 1"
        using n by (simp add: less_eq_div_iff_mult_less_eq)
      then have "k * nat (batch a) \<le> length ?xs"
        using n by simp
      then have "int (k * nat (batch a)) \<le> int (length ?xs)"
        by (simp only: of_nat_le_iff)
      with True have "batch a * int k \<le> int (length ?xs)"
        by (simp add: mult.commute)
      with le ne show ?thesis by linarith
    qed
    then show ?thesis
      by (simp add: folders_within_def list_all_iff)
  qed
qed

subsection \<open>The bars of a whole job\<close>

lemma dispatch_bars_inv:
  assumes "0 < ft"
    and "batch_policy (mode a) (engine a) \<and> ok_count e a (input_folders e a) \<noteq> 0
         \<longrightarrow> 0 \<le> batch a"
  shows "\<exists>new. bars (snd (dispatch e a ft w)) = bars w @ new
           \<and> list_all (\<lambda>p. bar_inv p \<and> p_total p = ft) new"
proof (cases "batch_policy (mode a) (engine a)")
  case True
  let ?c0 = "\<lparr>file_count = 0, failed = 0, batch_now = batch a, bar = add_task ft\<rparr>"
  let ?fs = "takeWhile (task_returns e a) (input_folders e a)"
  have i: "bar_inv (bar ?c0)" "p_completed (bar ?c0) = file_count ?c0" "p_total (bar ?c0) = ft"
    using assms(1) by (simp_all add: add_task_inv, simp_all add: add_task_def)
  have s: "0 \<le> batch_now ?c0 \<or> ok_count e a ?fs = 0"
    using assms(2) True ok_count_takeWhile [of e a "input_folders e a" "task_returns e a"]
    by auto
  from batch_fold_inv [OF i s]
  have "bar_inv (bar (batch_fold e a ft ?c0 ?fs)) \<and> p_total (bar (batch_fold e a ft ?c0 ?fs)) = ft" .
  then show ?thesis
    by (simp add: dispatch_batch_world(2) [OF True])
next
  case False
  with per_file_dispatch_bars [OF assms(1)] show ?thesis
    by (simp add: dispatch_def)
qed

lemma run_bars_inv:
  assumes "0 \<le> limit a"
    and "batch_policy (mode a) (engine a) \<and> ok_count e a (input_folders e a) \<noteq> 0
         \<longrightarrow> 0 \<le> batch a"
  shows "\<exists>new. bars (snd (run e a w)) = bars w @ new
           \<and> list_all (\<lambda>p. bar_inv p \<and> p_total p = limit_total (limit a) (found_total e a)) new"
proof (cases "path_exists e (input_folder a) \<and> limit_total (limit a) (found_total e a) \<noteq> 0")
  case False
  then have "bars (snd (run e a w)) = bars w"
    by (auto simp: run_def Let_def echo_def announce_def)
  then show ?thesis by simp
next
  case True
  let ?ft = "limit_total (limit a) (found_total e a)"
  let ?w3 = "write_log_init (write_csv_init (announce e a w))"
  have "0 \<le> ?ft"
    using assms(1) by (simp add: limit_total_def found_total_def)
  with True have pos: "0 < ?ft" by simp
  from dispatch_bars_inv [OF pos assms(2), of ?w3]
  obtain new where n: "bars (snd (dispatch e a ?ft ?w3)) = bars ?w3 @ new"
    "list_all (\<lambda>p. bar_inv p \<and> p_total p = ?ft) new"
    by blast
  have "bars (snd (run e a w)) = bars (snd (dispatch e a ?ft ?w3))"
    using True by (simp add: run_dispatches case_prod_unfold finalize_same split: sum.splits)
  with n show ?thesis
    by (simp add: started_same)
qed

lemma dispatch_batch_file_count:
  assumes "batch_policy (mode a) (engine a)" and "0 \<le> ft"
    and "fst (dispatch e a ft w) = Inr d"
  shows "d_file_count d = min (batch a * ok_count e a (input_folders e a)) ft"
    and "\<exists>p. bars (snd (dispatch e a ft w)) = bars w @ [p] \<and> p_completed p = d_file_count d
           \<and> p_total p = ft"
proof -
  let ?c0 = "\<lparr>file_count = 0, failed = 0, batch_now = batch a, bar = add_task ft\<rparr>"
  let ?fs = "input_folders e a"
  from dispatch_batch_result [OF assms(1), of e ft w d] assms(3)
  have all: "list_all (task_returns e a) ?fs"
    and d: "d_file_count d = file_count (batch_fold e a ft ?c0 ?fs)"
    by simp_all
  have "file_count (batch_fold e a ft ?c0 ?fs) = min (batch a * (0 + ok_count e a ?fs)) ft"
    by (rule batch_fold_file_count [OF assms(2)]) (simp add: assms(2))
  with d show "d_file_count d = min (batch a * ok_count e a ?fs) ft"
    by simp
  from all have tw: "takeWhile (task_returns e a) ?fs = ?fs"
    by (simp add: list_all_iff)
  from batch_fold_bar_delta [of e a ft ?c0 ?fs]
  have "p_completed (bar (batch_fold e a ft ?c0 ?fs)) = file_count (batch_fold e a ft ?c0 ?fs)"
    by (simp add: add_task_def)
  moreover have "p_total (bar (batch_fold e a ft ?c0 ?fs)) = ft"
    by (simp add: add_task_def)
  ultimately show "\<exists>p. bars (snd (dispatch e a ft w)) = bars w @ [p]
      \<and> p_completed p = d_file_count d \<and> p_total p = ft"
    using d by (simp add: dispatch_batch_world(2) [OF assms(1)] tw)
qed

subsection \<open>Per-file jobs whose units cannot be loaded\<close>





lemma submit_loop_units:
  assumes "\<not> p_finished (bar c)"
  shows "submitted (snd (snd (submit_loop e a fs tasks c w)))
           = submitted w @ take (max 1 (nat (p_total (bar c) - p_completed (bar c)))) fs"
  using assms
proof (induction fs arbitrary: c w tasks)
  case Nil
  then show ?case by simp
next
  case (Cons path rest)
  let ?w0 = "w\<lparr>submitted := submitted w @ [path]\<rparr>"
  let ?r = "scan_task e path (mode a) (convert a) (target a) (engine a) 6 (prefix_arg a) ?w0"
  let ?c = "c\<lparr>file_count := file_count c + 1, bar := update_advance (bar c) 1\<rparr>"
  show ?case
  proof (cases "p_finished (bar ?c)")
    case True
    with Cons.prems have "p_total (bar c) \<le> p_completed (bar c) + 1"
      by (simp add: update_advance_def Let_def)
    then have "max 1 (nat (p_total (bar c) - p_completed (bar c))) = 1"
      by simp
    with True show ?thesis
      by (simp add: case_prod_unfold Let_def)
  next
    case False
    then have lt: "p_completed (bar c) + 1 < p_total (bar c)"
      by (simp add: update_advance_def Let_def)
    then have k: "max 1 (nat (p_total (bar c) - p_completed (bar c)))
                    = Suc (max 1 (nat (p_total (bar ?c) - p_completed (bar ?c))))"
      by simp
    from Cons.IH [OF False, of "tasks @ [fst ?r]" "snd ?r"] False
    show ?thesis
      unfolding k by (simp add: case_prod_unfold Let_def)
  qed
qed





lemma dispatch_file_units:
  assumes "\<not> batch_policy (mode a) (engine a)"
  shows "units_since w (snd (dispatch e a ft w)) = take (max 1 (nat ft)) (file_globs e a)"
    and "submitted (snd (dispatch e a ft w))
          = submitted w @ take (max 1 (nat ft)) (file_globs e a)"
proof -
  let ?c0 = "\<lparr>file_count = 0, failed = 0, batch_now = batch a, bar = add_task ft\<rparr>"
  have nf: "\<not> p_finished (bar ?c0)"
    by (simp add: add_task_def)
  from submit_loop_units [OF nf, of e a "file_globs e a" "[]" w]
  show s: "submitted (snd (dispatch e a ft w))
          = submitted w @ take (max 1 (nat ft)) (file_globs e a)"
    using assms
    by (simp add: dispatch_def file_globs_def per_file_dispatch_def Let_def case_prod_unfold
        add_task_def split: sum.splits)
  then show "units_since w (snd (dispatch e a ft w)) = take (max 1 (nat ft)) (file_globs e a)"
    by (simp add: units_since_def)
qed


section \<open>Task errors\<close>

text \<open>
  C1. When the scoring call of a work unit raises, the task catches the exception,
  appends exactly one log entry that carries the unit's file path (per-file policy) or
  batch folder (per-batch policy) and the error text, appends nothing to the output
  table, and returns normally with the value \<open>None\<close>: no exception leaves the task.
\<close>

theorem scan_task_error_is_logged:
  assumes "scan e (if batch_policy m eng
                   then ScanFolder path m eng fus
                   else ScanFile path m conv targ eng) = Inl ex"
  shows "scan_task e path m conv targ eng fus pre w =
           (Inr None,
            w\<lparr>console := console w @ [ScanTaskError (str_exn ex)],
              logs := Some ((case logs w of None \<Rightarrow> [] | Some es \<Rightarrow> es) @
                        [[(if batch_policy m eng then ''folder'' else ''file'', JStr path),
                          (''task error'', JStr (str_exn ex))]])\<rparr>)
         \<and> table (snd (scan_task e path m conv targ eng fus pre w)) = table w"
proof (cases "batch_policy m eng")
  case True
  with assms have "scan e (ScanFolder path m eng fus) = Inl ex" by simp
  with True show ?thesis by (simp add: scan_task_def write_log_def echo_def)
next
  case False
  with assms have "scan e (ScanFile path m conv targ eng) = Inl ex" by simp
  with False show ?thesis by (simp add: scan_task_def write_log_def echo_def)
qed

theorem scan_task_error_is_logged_witness:
  "scan (example_env [] scan_raises) (ScanFile ''data/f0'' ''iris'' [] [] ''obqe'')
     = Inl (Exception ''cannot score'')
   \<and> scan_task (example_env [] scan_raises) ''data/f0'' ''iris'' [] [] ''obqe'' 6 [] world0
     = (Inr None,
        world0\<lparr>console := [ScanTaskError ''cannot score''],
               logs := Some [[(''file'', JStr ''data/f0''),
                              (''task error'', JStr ''cannot score'')]]\<rparr>)
   \<and> table (snd (scan_task (example_env [] scan_raises) ''data/f0'' ''iris'' [] [] ''obqe'' 6 []
                    world0)) = None"
proof -
  have h: "scan (example_env [] scan_raises)
             (if batch_policy ''iris'' ''obqe''
              then ScanFolder ''data/f0'' ''iris'' ''obqe'' 6
              else ScanFile ''data/f0'' ''iris'' [] [] ''obqe'') = Inl (Exception ''cannot score'')"
    by (simp add: example_env_def scan_raises_def batch_policy_def)
  from scan_task_error_is_logged [OF h, where pre = "[]" and w = world0]
  show ?thesis
    by (simp add: example_env_def scan_raises_def batch_policy_def world0_def)
qed

section \<open>Jobs without input\<close>

text \<open>
  C5. When the input directory exists and the total of matching inputs, after the limit
  has been applied, is zero, the job prints the job panel (and the limit, when one is
  set), reports that no valid input was found and returns. Nothing else changes: no
  output table, no log file and no report is created, and no unit is submitted. The
  check comes before the choice of the dispatch policy, so it holds for both.
\<close>

theorem no_input_no_artifacts:
  assumes "path_exists e (input_folder a)"
    and "limit_total (limit a) (found_total e a) = 0"
  shows "run e a w =
           (Inr (),
            w\<lparr>console := console w
                 @ [JobInfo (metadata e a (validate_path e (input_folder a)) (found_total e a))]
                 @ (if limit a \<noteq> 0 then [ScanNumberLimit (limit a)] else [])
                 @ [NoValidInput]\<rparr>)"
  using assms by (simp add: run_def announce_def Let_def echo_def)

theorem no_input_no_artifacts_witness:
  "path_exists (example_env [] scan_scores) (input_folder (example_args ''speech'' ''obqe'' 0 30))
   \<and> run (example_env [] scan_scores) (example_args ''speech'' ''obqe'' 0 30) world0 =
       (Inr (),
        world0\<lparr>console :=
                 [JobInfo [(''Mode'', ''speech''), (''Input Type'', ''wav''),
                           (''Input Folder'', ''data/''), (''Input Count'', ''0'')],
                  NoValidInput]\<rparr>)
   \<and> table world0 = None \<and> logs world0 = None \<and> report_calls world0 = 0"
proof -
  let ?e = "example_env [] scan_scores"
  let ?a = "example_args ''speech'' ''obqe'' 0 30"
  have h1: "path_exists ?e (input_folder ?a)"
    by (simp add: example_env_def)
  have h2: "limit_total (limit ?a) (found_total ?e ?a) = 0"
    by (simp add: example_env_def example_args_def limit_total_def found_total_def)
  from no_input_no_artifacts [OF h1 h2, of world0] h1
  show ?thesis
    by (simp add: example_env_def example_args_def world0_def metadata_def TYPE_exts_def
        found_total_def str_nat.simps)
qed

section \<open>Accepted extensions\<close>

lemma per_batch_loop_type_list:
  "per_batch_loop e (a\<lparr>type_list := t\<rparr>) ft fs c w = per_batch_loop e a ft fs c w"
  by (induction fs arbitrary: c w) (simp_all split: prod.splits sum.splits)

lemma TYPE_exts_speech: "mode a = ''speech'' \<Longrightarrow> TYPE_exts (a\<lparr>type_list := t\<rparr>) = TYPE_exts a"
  by (simp add: TYPE_exts_def)

lemma metadata_type_list:
  "mode a = ''speech'' \<Longrightarrow> metadata e (a\<lparr>type_list := t\<rparr>) f n = metadata e a f n"
  by (simp add: metadata_def TYPE_exts_def)

lemma log_out_type_list:
  "log_out e (a\<lparr>type_list := t\<rparr>) f fc n es = log_out e a f fc n es"
  by (simp add: log_out_def Let_def)

lemma reload_log_type_list:
  "reload_log e (a\<lparr>type_list := t\<rparr>) f fc fl w = reload_log e a f fc fl w"
  by (simp add: reload_log_def log_out_type_list Let_def split: option.splits)

lemma make_report_type_list:
  "make_report e (a\<lparr>type_list := t\<rparr>) od w = make_report e a od w"
  by (simp add: make_report_def Let_def)

lemma make_filter_type_list:
  "make_filter e (a\<lparr>type_list := t\<rparr>) od w = make_filter e a od w"
  by (auto simp: make_filter_def Let_def)

lemma finalize_type_list:
  "finalize e (a\<lparr>type_list := t\<rparr>) f od ld fc fl w = finalize e a f od ld fc fl w"
  by (simp add: finalize_def reload_log_type_list make_report_type_list make_filter_type_list
      Let_def split: prod.splits option.splits)

lemma per_batch_dispatch_type_list:
  "mode a = ''speech'' \<Longrightarrow>
   per_batch_dispatch e (a\<lparr>type_list := t\<rparr>) f n w = per_batch_dispatch e a f n w"
  by (simp add: per_batch_dispatch_def per_batch_loop_type_list TYPE_exts_speech)

lemma dispatch_type_list:
  "mode a = ''speech'' \<Longrightarrow> dispatch e (a\<lparr>type_list := t\<rparr>) n w = dispatch e a n w"
  by (simp add: dispatch_def batch_policy_def per_batch_dispatch_type_list)

lemma found_total_type_list:
  "mode a = ''speech'' \<Longrightarrow> found_total e (a\<lparr>type_list := t\<rparr>) = found_total e a"
  by (simp add: found_total_def TYPE_exts_speech)

lemma announce_type_list:
  "mode a = ''speech'' \<Longrightarrow> announce e (a\<lparr>type_list := t\<rparr>) w = announce e a w"
  by (simp add: announce_def metadata_type_list found_total_type_list Let_def)

text \<open>
  C10. In speech mode the accepted extensions are \<open>["wav"]\<close> whatever type list the user
  gave: the job panel shows them, the files are counted over \<open>extended(["wav"])\<close>, the
  batch folders are those the partitioner yields for \<open>extended(["wav"])\<close> and they are
  what the job submits, and the whole job is the same for every type list. In every other
  mode the panel, the count, the partitioning and the per-file enumeration take the
  user's type list.
\<close>

theorem speech_accepts_wav_only:
  "(mode a = ''speech'' \<longrightarrow>
      TYPE_exts a = [''wav'']
      \<and> (''Input Type'', str_list e [''wav'']) \<in> set (metadata e a f n)
      \<and> found_total e a
          = int (length (iter_matching_files e (validate_path e (input_folder a)) (pattern a)
                           (extended e [''wav''])))
      \<and> input_folders e a
          = split_input_folder e (validate_path e (input_folder a)) (temp_folder e)
              (extended e [''wav'']) (batch a) (pattern a) (limit a)
      \<and> submitted (snd (dispatch e a ft w))
          = submitted w
            @ take (Suc (length (takeWhile (task_returns e a)
                 (split_input_folder e (validate_path e (input_folder a)) (temp_folder e)
                    (extended e [''wav'']) (batch a) (pattern a) (limit a)))))
                (split_input_folder e (validate_path e (input_folder a)) (temp_folder e)
                   (extended e [''wav'']) (batch a) (pattern a) (limit a))
      \<and> run e (a\<lparr>type_list := t\<rparr>) w = run e a w)
   \<and> (mode a \<noteq> ''speech'' \<longrightarrow>
      TYPE_exts a = type_list a
      \<and> (''Input Type'', str_list e (type_list a)) \<in> set (metadata e a f n)
      \<and> found_total e a
          = int (length (iter_matching_files e (validate_path e (input_folder a)) (pattern a)
                           (extended e (type_list a))))
      \<and> (batch_policy (mode a) (engine a) \<longrightarrow>
           submitted (snd (dispatch e a ft w))
             = submitted w
               @ take (Suc (length (takeWhile (task_returns e a)
                    (split_input_folder e (validate_path e (input_folder a)) (temp_folder e)
                       (extended e (type_list a)) (batch a) (pattern a) (limit a)))))
                   (split_input_folder e (validate_path e (input_folder a)) (temp_folder e)
                      (extended e (type_list a)) (batch a) (pattern a) (limit a)))
      \<and> (\<not> batch_policy (mode a) (engine a) \<longrightarrow>
           submitted (snd (dispatch e a ft w))
             = submitted w
               @ take (max 1 (nat ft))
                   (iter_matching_files e (validate_path e (input_folder a)) (pattern a)
                      (extended e (type_list a)))))"
proof -
  have sp: ?thesis if m: "mode a = ''speech''"
  proof -
    have r: "run e (a\<lparr>type_list := t\<rparr>) w = run e a w"
      using m
      by (simp add: run_def dispatch_type_list found_total_type_list announce_type_list
          finalize_type_list output_path_def log_path_def Let_def
          split: prod.splits sum.splits)
    have b: "batch_policy (mode a) (engine a)"
      using m by (simp add: batch_policy_def)
    have t: "TYPE_exts a = [''wav'']"
      using m by (simp add: TYPE_exts_def)
    have md: "(''Input Type'', str_list e [''wav'']) \<in> set (metadata e a f n)"
      by (simp add: metadata_def t)
    have ft: "found_total e a
          = int (length (iter_matching_files e (validate_path e (input_folder a)) (pattern a)
                           (extended e [''wav''])))"
      by (simp add: found_total_def t)
    have fs: "input_folders e a
          = split_input_folder e (validate_path e (input_folder a)) (temp_folder e)
              (extended e [''wav'']) (batch a) (pattern a) (limit a)"
      by (simp add: input_folders_def t)
    from dispatch_batch_world(1) [OF b, of e ft w] t md ft fs r m show ?thesis
      by simp
  qed
  have ns: ?thesis if m: "mode a \<noteq> ''speech''"
  proof -
    have t: "TYPE_exts a = type_list a"
      using m by (simp add: TYPE_exts_def)
    have md: "(''Input Type'', str_list e (type_list a)) \<in> set (metadata e a f n)"
      by (simp add: metadata_def t)
    have ft: "found_total e a
          = int (length (iter_matching_files e (validate_path e (input_folder a)) (pattern a)
                           (extended e (type_list a))))"
      by (simp add: found_total_def t)
    have fs: "input_folders e a
          = split_input_folder e (validate_path e (input_folder a)) (temp_folder e)
              (extended e (type_list a)) (batch a) (pattern a) (limit a)"
      by (simp add: input_folders_def t)
    have fg: "file_globs e a
          = iter_matching_files e (validate_path e (input_folder a)) (pattern a)
              (extended e (type_list a))"
      by (simp add: file_globs_def t)
    have pb: "submitted (snd (dispatch e a ft w))
             = submitted w
               @ take (Suc (length (takeWhile (task_returns e a)
                    (split_input_folder e (validate_path e (input_folder a)) (temp_folder e)
                       (extended e (type_list a)) (batch a) (pattern a) (limit a)))))
                   (split_input_folder e (validate_path e (input_folder a)) (temp_folder e)
                      (extended e (type_list a)) (batch a) (pattern a) (limit a))"
      if b: "batch_policy (mode a) (engine a)"
      using dispatch_batch_world(1) [OF b, of e ft w] by (simp add: fs)
    have pf: "submitted (snd (dispatch e a ft w))
             = submitted w
               @ take (max 1 (nat ft))
                   (iter_matching_files e (validate_path e (input_folder a)) (pattern a)
                      (extended e (type_list a)))"
      if nb: "\<not> batch_policy (mode a) (engine a)"
      using dispatch_file_units(2) [OF nb, of e ft w] by (simp add: fg)
    from t md ft pb pf m show ?thesis
      by simp
  qed
  from sp ns show ?thesis by blast
qed

text \<open>
  An enumeration and a partitioner that find the two input files only under \<open>wav\<close>: a
  speech job asked for \<open>mp3\<close> counts and submits them, an iris job asked for \<open>mp3\<close>
  finds nothing, an iris job asked for \<open>wav\<close> finds both.
\<close>

theorem speech_accepts_wav_only_witness:
  "mode ((example_args ''speech'' ''obqe'' 0 30)\<lparr>type_list := [''mp3'']\<rparr>) = ''speech''
   \<and> found_total (wav_env (files_n 2) scan_scores)
       ((example_args ''speech'' ''obqe'' 0 30)\<lparr>type_list := [''mp3'']\<rparr>) = 2
   \<and> submitted (snd (dispatch (wav_env (files_n 2) scan_scores)
                        ((example_args ''speech'' ''obqe'' 0 30)\<lparr>type_list := [''mp3'']\<rparr>)
                        2 world0))
       = [''temp/0/batch_0'']
   \<and> mode ((example_args ''iris'' ''obqe'' 0 30)\<lparr>type_list := [''mp3'']\<rparr>) \<noteq> ''speech''
   \<and> found_total (wav_env (files_n 2) scan_scores)
       ((example_args ''iris'' ''obqe'' 0 30)\<lparr>type_list := [''mp3'']\<rparr>) = 0
   \<and> found_total (wav_env (files_n 2) scan_scores)
       ((example_args ''iris'' ''obqe'' 0 30)\<lparr>type_list := [''wav'']\<rparr>) = 2"
proof -
  let ?e = "wav_env (files_n 2) scan_scores"
  let ?s = "(example_args ''speech'' ''obqe'' 0 30)\<lparr>type_list := [''mp3'']\<rparr>"
  let ?i = "(example_args ''iris'' ''obqe'' 0 30)\<lparr>type_list := [''mp3'']\<rparr>"
  let ?j = "(example_args ''iris'' ''obqe'' 0 30)\<lparr>type_list := [''wav'']\<rparr>"
  have m1: "mode ?s = ''speech''" and m2: "mode ?i \<noteq> ''speech''" and m3: "mode ?j \<noteq> ''speech''"
    by (simp_all add: example_args_def)
  have l: "length (files_n 2) = 2"
    by (simp add: files_n_def)
  have x: "extended ?e = (\<lambda>ts. ts)"
    and it: "iter_matching_files ?e = (\<lambda>folder pat exts. if ''wav'' \<in> set exts then files_n 2 else [])"
    by (simp_all add: wav_env_def example_env_def)
  have sw: "split_input_folder ?e (validate_path ?e (input_folder ?s)) (temp_folder ?e)
              (extended ?e [''wav'']) (batch ?s) (pattern ?s) (limit ?s) = [''temp/0/batch_0'']"
    by code_simp
  have tr: "takeWhile (task_returns ?e ?s) [''temp/0/batch_0''] = [''temp/0/batch_0'']"
    by code_simp
  from speech_accepts_wav_only [of ?s ?e _ _ 2 world0] m1
  have a1: "found_total ?e ?s
          = int (length (iter_matching_files ?e (validate_path ?e (input_folder ?s)) (pattern ?s)
                           (extended ?e [''wav''])))"
    and a2: "submitted (snd (dispatch ?e ?s 2 world0))
          = submitted world0
            @ take (Suc (length (takeWhile (task_returns ?e ?s)
                 (split_input_folder ?e (validate_path ?e (input_folder ?s)) (temp_folder ?e)
                    (extended ?e [''wav'']) (batch ?s) (pattern ?s) (limit ?s)))))
                (split_input_folder ?e (validate_path ?e (input_folder ?s)) (temp_folder ?e)
                   (extended ?e [''wav'']) (batch ?s) (pattern ?s) (limit ?s))"
    by blast+
  from a1 have p1: "found_total ?e ?s = 2"
    by (simp add: x it l)
  from a2 have p2: "submitted (snd (dispatch ?e ?s 2 world0)) = [''temp/0/batch_0'']"
    unfolding sw tr by (simp add: world0_def)
  from speech_accepts_wav_only [of ?i ?e] m2
  have "found_total ?e ?i
          = int (length (iter_matching_files ?e (validate_path ?e (input_folder ?i)) (pattern ?i)
                           (extended ?e (type_list ?i))))"
    by blast
  then have p3: "found_total ?e ?i = 0"
    by (simp add: x it)
  from speech_accepts_wav_only [of ?j ?e] m3
  have "found_total ?e ?j
          = int (length (iter_matching_files ?e (validate_path ?e (input_folder ?j)) (pattern ?j)
                           (extended ?e (type_list ?j))))"
    by blast
  then have p4: "found_total ?e ?j = 2"
    by (simp add: x it l)
  from m1 m2 p1 p2 p3 p4 show ?thesis by blast
qed

section \<open>The limit\<close>

text \<open>
  C4, as amended. For a job whose input directory exists and whose limit \<open>L\<close> is
  positive and below the number of matching files, the job total is \<open>L\<close>. Under the
  per-file policy exactly the first \<open>L\<close> files are submitted, one work unit each, and a
  summary that is printed reports \<open>L\<close> as the processed count. Under the per-batch
  policy the work units are the batch folders that the partitioner yields for the limit:
  they are submitted in order, up to and including the first whose task lets an exception
  escape, so all of them when every task returns; a summary that is printed reports as
  processed the smaller of \<open>L\<close> and the batch size times the number of successful
  batches, which is \<open>L\<close> when the successful batches cover the limit.
\<close>

theorem limit_caps_submissions:
  assumes "path_exists e (input_folder a)" and "0 < limit a" and "limit a < found_total e a"
  shows "limit_total (limit a) (found_total e a) = limit a
     \<and> (\<not> batch_policy (mode a) (engine a) \<longrightarrow>
          submitted (snd (run e a w))
            = submitted w @ take (nat (limit a))
                (iter_matching_files e (validate_path e (input_folder a)) (pattern a)
                   (extended e (TYPE_exts a)))
          \<and> int (length (submitted (snd (run e a w)))) = int (length (submitted w)) + limit a
          \<and> (fst (run e a w) = Inr () \<longrightarrow>
               (\<exists>s. printed (console (snd (run e a w))) = printed (console w) @ [s]
                  \<and> field (field s ''Assessment Task'') ''Processed'' = JInt (limit a))))
     \<and> (batch_policy (mode a) (engine a) \<longrightarrow>
          submitted (snd (run e a w))
            = submitted w @ take (Suc (length (takeWhile (task_returns e a) (input_folders e a))))
                              (input_folders e a)
          \<and> (list_all (task_returns e a) (input_folders e a) \<longrightarrow>
               submitted (snd (run e a w)) = submitted w @ input_folders e a)
          \<and> (fst (run e a w) = Inr () \<longrightarrow>
               (\<exists>s. printed (console (snd (run e a w))) = printed (console w) @ [s]
                  \<and> field (field s ''Assessment Task'') ''Processed''
                      = JInt (min (batch a * ok_count e a (input_folders e a)) (limit a)))))"
proof -
  let ?files = "iter_matching_files e (validate_path e (input_folder a)) (pattern a)
                   (extended e (TYPE_exts a))"
  let ?w3 = "write_log_init (write_csv_init (announce e a w))"
  let ?f = "validate_path e (input_folder a)"
  from assms have tot: "limit_total (limit a) (found_total e a) = limit a"
    by (simp add: limit_total_def)
  with assms have nz: "limit_total (limit a) (found_total e a) \<noteq> 0" by simp
  note run = run_dispatches [OF assms(1) nz, of w, unfolded tot]
  have sub: "submitted (snd (run e a w)) = submitted (snd (dispatch e a (limit a) ?w3))"
    by (simp add: run case_prod_unfold finalize_same split: sum.splits)
  have len: "length (take (nat (limit a)) ?files) = nat (limit a)"
    using assms by (simp add: found_total_def)
  have per_file: ?thesis if nb: "\<not> batch_policy (mode a) (engine a)"
  proof -
    have d: "dispatch e a (limit a) ?w3 = per_file_dispatch e a (limit a) ?files ?w3"
      using nb by (simp add: dispatch_def)
    note pf = per_file_dispatch_facts [OF assms(2), of e a ?files ?w3]
    from pf sub have s: "submitted (snd (run e a w)) = submitted w @ take (nat (limit a)) ?files"
      by (simp add: d started_same)
    have pr: "\<exists>s. printed (console (snd (run e a w))) = printed (console w) @ [s]
                  \<and> field (field s ''Assessment Task'') ''Processed'' = JInt (limit a)"
      if ok: "fst (run e a w) = Inr ()"
    proof (cases "fst (per_file_dispatch e a (limit a) ?files ?w3)")
      case (Inl ex)
      with ok show ?thesis
        by (simp add: run d case_prod_unfold)
    next
      case (Inr dd)
      let ?w4 = "snd (per_file_dispatch e a (limit a) ?files ?w3)"
      from pf Inr have fc: "d_file_count dd = limit a"
        using assms by (simp add: found_total_def)
      have r: "run e a w = finalize e a ?f (output_path e a) (log_path e a) (limit a)
                              (d_failed dd) ?w4"
        using Inr fc by (simp add: run d case_prod_unfold)
      from finalize_printed [of e a ?f "output_path e a" "log_path e a" "limit a"
                               "d_failed dd" ?w4] ok r pf
      obtain od' rd flt where
        "printed (console (snd (run e a w)))
           = printed (console w) @ [JObj (summary e ?f (log_path e a) (limit a) od' rd flt)]"
        by (auto simp: started_same)
      then show ?thesis
        using summary_processed by blast
    qed
    from tot s len pr nb assms(2) show ?thesis
      by simp
  qed
  have per_batch: ?thesis if b: "batch_policy (mode a) (engine a)"
  proof -
    let ?fs = "input_folders e a"
    let ?n = "min (batch a * ok_count e a ?fs) (limit a)"
    note dw = dispatch_batch_world [OF b, of e "limit a" ?w3]
    from dw(1) sub have s: "submitted (snd (run e a w))
        = submitted w @ take (Suc (length (takeWhile (task_returns e a) ?fs))) ?fs"
      by (simp add: started_same)
    have s2: "submitted (snd (run e a w)) = submitted w @ ?fs"
      if "list_all (task_returns e a) ?fs"
    proof -
      from that have "takeWhile (task_returns e a) ?fs = ?fs"
        by (simp add: list_all_iff)
      with s show ?thesis by simp
    qed
    have pr: "\<exists>s. printed (console (snd (run e a w))) = printed (console w) @ [s]
                  \<and> field (field s ''Assessment Task'') ''Processed'' = JInt ?n"
      if ok: "fst (run e a w) = Inr ()"
    proof (cases "fst (dispatch e a (limit a) ?w3)")
      case (Inl ex)
      with ok show ?thesis
        by (simp add: run case_prod_unfold)
    next
      case (Inr dd)
      let ?w4 = "snd (dispatch e a (limit a) ?w3)"
      from assms(2) have "0 \<le> limit a" by simp
      from dispatch_batch_file_count(1) [OF b this Inr]
      have fc: "d_file_count dd = ?n" .
      have r: "run e a w = finalize e a ?f (output_path e a) (log_path e a) ?n
                              (d_failed dd) ?w4"
        using Inr fc by (simp add: run case_prod_unfold)
      from finalize_printed [of e a ?f "output_path e a" "log_path e a" ?n
                               "d_failed dd" ?w4] ok r dw(3)
      obtain od' rd flt where
        "printed (console (snd (run e a w)))
           = printed (console w) @ [JObj (summary e ?f (log_path e a) ?n od' rd flt)]"
        by (auto simp: started_same)
      then show ?thesis
        using summary_processed by blast
    qed
    from tot s s2 pr b show ?thesis
      by simp
  qed
  from per_file per_batch show ?thesis by blast
qed

text \<open>
  Three files with limit 2 under the per-file policy: the first two files are submitted.
  Five files with limit 4 in batches of two under the per-batch policy: both batch
  folders are submitted and the summary reports 4 files processed.
\<close>

theorem limit_caps_submissions_witness:
  "path_exists (example_env (files_n 3) scan_scores)
     (input_folder (example_args ''iris'' ''obqe'' 2 30))
   \<and> 0 < limit (example_args ''iris'' ''obqe'' 2 30)
   \<and> limit (example_args ''iris'' ''obqe'' 2 30)
       < found_total (example_env (files_n 3) scan_scores) (example_args ''iris'' ''obqe'' 2 30)
   \<and> \<not> batch_policy (mode (example_args ''iris'' ''obqe'' 2 30))
         (engine (example_args ''iris'' ''obqe'' 2 30))
   \<and> submitted (snd (run (example_env (files_n 3) scan_scores)
                        (example_args ''iris'' ''obqe'' 2 30) world0))
       = [''data/f0'', ''data/f1'']
   \<and> path_exists (example_env (files_n 5) scan_scores)
       (input_folder (example_args ''speech'' ''obqe'' 4 2))
   \<and> 0 < limit (example_args ''speech'' ''obqe'' 4 2)
   \<and> limit (example_args ''speech'' ''obqe'' 4 2)
       < found_total (example_env (files_n 5) scan_scores) (example_args ''speech'' ''obqe'' 4 2)
   \<and> batch_policy (mode (example_args ''speech'' ''obqe'' 4 2))
         (engine (example_args ''speech'' ''obqe'' 4 2))
   \<and> submitted (snd (run (example_env (files_n 5) scan_scores)
                        (example_args ''speech'' ''obqe'' 4 2) world0))
       = [''temp/0/batch_0'', ''temp/0/batch_1'']
   \<and> map (\<lambda>s. field (field s ''Assessment Task'') ''Processed'')
        (printed (console (snd (run (example_env (files_n 5) scan_scores)
                                  (example_args ''speech'' ''obqe'' 4 2) world0))))
       = [JInt 4]"
proof -
  let ?e = "example_env (files_n 3) scan_scores"
  let ?a = "example_args ''iris'' ''obqe'' 2 30"
  let ?e' = "example_env (files_n 5) scan_scores"
  let ?a' = "example_args ''speech'' ''obqe'' 4 2"
  have h1: "path_exists ?e (input_folder ?a)"
    by (simp add: example_env_def)
  have h2: "0 < limit ?a"
    by (simp add: example_args_def)
  have h3: "limit ?a < found_total ?e ?a"
    by (simp add: example_args_def example_env_def found_total_def files_3)
  have nb: "\<not> batch_policy (mode ?a) (engine ?a)"
    by (simp add: example_args_def batch_policy_def)
  from limit_caps_submissions [OF h1 h2 h3, of world0] nb
  have "submitted (snd (run ?e ?a world0))
          = submitted world0 @ take (nat (limit ?a))
              (iter_matching_files ?e (validate_path ?e (input_folder ?a)) (pattern ?a)
                 (extended ?e (TYPE_exts ?a)))"
    by blast
  then have p1: "submitted (snd (run ?e ?a world0)) = [''data/f0'', ''data/f1'']"
    by (simp add: example_args_def example_env_def world0_def files_3)
  have g1: "path_exists ?e' (input_folder ?a')"
    by (simp add: example_env_def)
  have g2: "0 < limit ?a'"
    by (simp add: example_args_def)
  have g3: "limit ?a' < found_total ?e' ?a'"
    by code_simp
  have b: "batch_policy (mode ?a') (engine ?a')"
    by (simp add: example_args_def batch_policy_def)
  have fs: "input_folders ?e' ?a' = [''temp/0/batch_0'', ''temp/0/batch_1'']"
    by code_simp
  have ret: "list_all (task_returns ?e' ?a') (input_folders ?e' ?a')"
    by code_simp
  have ok: "fst (run ?e' ?a' world0) = Inr ()"
    by code_simp
  have n: "min (batch ?a' * ok_count ?e' ?a' (input_folders ?e' ?a')) (limit ?a') = 4"
    by code_simp
  have c0: "printed (console world0) = []" "submitted world0 = []"
    by (simp_all add: world0_def)
  note concl = limit_caps_submissions [OF g1 g2 g3, of world0]
  from concl b ret have p2: "submitted (snd (run ?e' ?a' world0)) = submitted world0 @ input_folders ?e' ?a'"
    by blast
  from concl b ok obtain s where
    "printed (console (snd (run ?e' ?a' world0))) = printed (console world0) @ [s]"
    "field (field s ''Assessment Task'') ''Processed''
       = JInt (min (batch ?a' * ok_count ?e' ?a' (input_folders ?e' ?a')) (limit ?a'))"
    by blast
  then have p3: "map (\<lambda>s. field (field s ''Assessment Task'') ''Processed'')
        (printed (console (snd (run ?e' ?a' world0)))) = [JInt 4]"
    unfolding n c0 by simp
  from p2 have p2': "submitted (snd (run ?e' ?a' world0)) = [''temp/0/batch_0'', ''temp/0/batch_1'']"
    unfolding fs c0 by simp
  from h1 h2 h3 nb p1 g1 g2 g3 b p2' p3 show ?thesis by blast
qed

text \<open>
  The claim as stated, exactly \<open>L\<close> work units for every job, fails for a speech job
  over three files with limit 2 and batch size 30: one batch folder is submitted.
\<close>

theorem limit_caps_submissions_counterexample:
  "path_exists (example_env (files_n 3) scan_scores)
     (input_folder (example_args ''speech'' ''obqe'' 2 30))
   \<and> 0 < limit (example_args ''speech'' ''obqe'' 2 30)
   \<and> limit (example_args ''speech'' ''obqe'' 2 30)
       < found_total (example_env (files_n 3) scan_scores) (example_args ''speech'' ''obqe'' 2 30)
   \<and> submitted (snd (run (example_env (files_n 3) scan_scores)
                        (example_args ''speech'' ''obqe'' 2 30) world0))
       = [''temp/0/batch_0'']
   \<and> length (submitted (snd (run (example_env (files_n 3) scan_scores)
                        (example_args ''speech'' ''obqe'' 2 30) world0))) \<noteq> 2"
  by code_simp

section \<open>The draining loop\<close>

text \<open>
  C6. In the draining loop of the per-file policy, while the bar is not finished: with
  fewer than 10 tasks outstanding the bar is set to its total and the loop ends at once,
  with no further \<open>ray.wait\<close> and all outstanding tasks left for the final \<open>ray.get\<close>;
  with 10 or more outstanding, the coordinator waits for exactly 10 tasks, advances the
  bar by 10 and loops. When the loop has ended, the dispatch calls \<open>ray.get\<close> on every
  task that is still outstanding, and returns (to the finalizer) only after that call,
  with an exception exactly when \<open>ray.get\<close> raises.
\<close>

theorem drain_window:
  "(\<not> p_finished p \<and> length not_ready < eta_step \<longrightarrow>
      drain p not_ready ops = (update_completed p (p_total p), not_ready, ops)
      \<and> p_completed (update_completed p (p_total p)) = p_total p)
   \<and> (\<not> p_finished p \<and> eta_step \<le> length not_ready \<longrightarrow>
      length (fst (ray_wait not_ready eta_step)) = 10
      \<and> drain p not_ready ops =
          drain (update_advance p 10) (snd (ray_wait not_ready eta_step))
            (ops @ [RayWait (length not_ready) 10]))
   \<and> (fst (submit_loop e a fs []
              \<lparr>file_count = 0, failed = 0, batch_now = batch a, bar = add_task ft\<rparr> w) = tasks
        \<and> tasks \<noteq> []
        \<and> drain (add_task ft) (snd (ray_wait tasks 1)) [RayWait (length tasks) 1]
            = (p', rest, ops') \<longrightarrow>
      pool (snd (per_file_dispatch e a ft fs w))
        = pool (snd (snd (submit_loop e a fs []
             \<lparr>file_count = 0, failed = 0, batch_now = batch a, bar = add_task ft\<rparr> w)))
          @ ops' @ [RayGet (length rest)]
      \<and> (\<forall>ex. fst (per_file_dispatch e a ft fs w) = Inl ex \<longleftrightarrow> ray_get rest = Inl ex))"
proof (intro conjI impI)
  assume h: "\<not> p_finished p \<and> length not_ready < eta_step"
  have fin: "p_finished (update_completed p (p_total p))"
    by (simp add: update_completed_def)
  from h have "drain p not_ready ops = drain (update_completed p (p_total p)) not_ready ops"
    by (subst drain.simps) simp
  also from fin have "\<dots> = (update_completed p (p_total p), not_ready, ops)"
    by (subst drain.simps) simp
  finally show "drain p not_ready ops = (update_completed p (p_total p), not_ready, ops)" .
  show "p_completed (update_completed p (p_total p)) = p_total p"
    by (simp add: update_completed_def)
next
  assume h: "\<not> p_finished p \<and> eta_step \<le> length not_ready"
  then show len: "length (fst (ray_wait not_ready eta_step)) = 10"
    by (simp add: ray_wait_def eta_step_def)
  from h len show "drain p not_ready ops =
          drain (update_advance p 10) (snd (ray_wait not_ready eta_step))
            (ops @ [RayWait (length not_ready) 10])"
    by (subst drain.simps) (simp add: case_prod_unfold eta_step_def)
next
  assume h: "fst (submit_loop e a fs []
              \<lparr>file_count = 0, failed = 0, batch_now = batch a, bar = add_task ft\<rparr> w) = tasks
        \<and> tasks \<noteq> []
        \<and> drain (add_task ft) (snd (ray_wait tasks 1)) [RayWait (length tasks) 1]
            = (p', rest, ops')"
  then have h1: "fst (submit_loop e a fs []
              \<lparr>file_count = 0, failed = 0, batch_now = batch a, bar = add_task ft\<rparr> w) = tasks"
    and h2: "tasks \<noteq> []"
    and h3: "drain (add_task ft) (snd (ray_wait tasks 1)) [RayWait (length tasks) 1]
            = (p', rest, ops')"
    by simp_all
  from per_file_dispatch_pool [OF h1 h2 h3]
  show "pool (snd (per_file_dispatch e a ft fs w))
        = pool (snd (snd (submit_loop e a fs []
             \<lparr>file_count = 0, failed = 0, batch_now = batch a, bar = add_task ft\<rparr> w)))
          @ ops' @ [RayGet (length rest)]"
    and "\<forall>ex. fst (per_file_dispatch e a ft fs w) = Inl ex \<longleftrightarrow> ray_get rest = Inl ex"
    by simp_all
qed

theorem drain_window_witness:
  "\<not> p_finished (add_task 3) \<and> length [Inr None, Inr None :: task_result] < eta_step
   \<and> drain (add_task 3) [Inr None, Inr None] [RayWait 3 1]
       = (\<lparr>p_total = 3, p_completed = 3, p_finished = True, p_shown = [0, 3]\<rparr>,
          [Inr None, Inr None], [RayWait 3 1])
   \<and> \<not> p_finished (add_task 12) \<and> eta_step \<le> length (replicate 11 (Inr None :: task_result))
   \<and> drain (add_task 12) (replicate 11 (Inr None)) [RayWait 12 1]
       = drain \<lparr>p_total = 12, p_completed = 10, p_finished = False, p_shown = [0, 10]\<rparr>
           [Inr None] [RayWait 12 1, RayWait 11 10]
   \<and> pool (snd (per_file_dispatch (example_env (files_n 2) scan_raises)
                   (example_args ''iris'' ''obqe'' 0 30) 2 (files_n 2) world0))
       = [RayWait 2 1, RayGet 1]"
proof -
  let ?e = "example_env (files_n 2) scan_raises"
  let ?a = "example_args ''iris'' ''obqe'' 0 30"
  let ?c0 = "\<lparr>file_count = 0, failed = 0, batch_now = batch ?a, bar = add_task 2\<rparr>"
  let ?p = "\<lparr>p_total = 2, p_completed = 2, p_finished = True, p_shown = [0, 2]\<rparr>"
  have a1: "\<not> p_finished (add_task 3) \<and> length [Inr None, Inr None :: task_result] < eta_step"
    by (simp add: add_task_def eta_step_def)
  have a2: "\<not> p_finished (add_task 12)
            \<and> eta_step \<le> length (replicate 11 (Inr None :: task_result))"
    by (simp add: add_task_def eta_step_def)
  have a3: "fst (submit_loop ?e ?a (files_n 2) [] ?c0 world0) = [Inr None, Inr None]
            \<and> [Inr None, Inr None :: task_result] \<noteq> []
            \<and> drain (add_task 2) (snd (ray_wait [Inr None, Inr None :: task_result] 1))
                 [RayWait (length [Inr None, Inr None :: task_result]) 1]
               = (?p, [Inr None], [RayWait 2 1])"
    by code_simp
  have p0: "pool (snd (snd (submit_loop ?e ?a (files_n 2) [] ?c0 world0))) = []"
    by code_simp
  note w = drain_window [where p = "add_task 3" and not_ready = "[Inr None, Inr None]"
      and ops = "[RayWait 3 1]" and e = ?e and a = ?a and fs = "files_n 2" and ft = 2
      and w = world0 and tasks = "[Inr None, Inr None]" and p' = ?p and rest = "[Inr None]"
      and ops' = "[RayWait 2 1]"]
  note w2 = drain_window [where p = "add_task 12" and not_ready = "replicate 11 (Inr None)"
      and ops = "[RayWait 12 1]"]
  from w a1 have r1: "drain (add_task 3) [Inr None, Inr None] [RayWait 3 1]
       = (update_completed (add_task 3) (p_total (add_task 3)), [Inr None, Inr None],
          [RayWait 3 1])"
    by blast
  from w2 a2 have r2: "drain (add_task 12) (replicate 11 (Inr None)) [RayWait 12 1]
       = drain (update_advance (add_task 12) 10)
           (snd (ray_wait (replicate 11 (Inr None :: task_result)) eta_step))
           ([RayWait 12 1] @ [RayWait (length (replicate 11 (Inr None :: task_result))) 10])"
    by blast
  from w a3 have r3: "pool (snd (per_file_dispatch ?e ?a 2 (files_n 2) world0))
       = pool (snd (snd (submit_loop ?e ?a (files_n 2) [] ?c0 world0)))
         @ [RayWait 2 1] @ [RayGet (length [Inr None :: task_result])]"
    by blast
  have e1: "update_completed (add_task 3) (p_total (add_task 3))
              = \<lparr>p_total = 3, p_completed = 3, p_finished = True, p_shown = [0, 3]\<rparr>"
    by (simp add: update_completed_def add_task_def)
  have e2: "update_advance (add_task 12) 10
              = \<lparr>p_total = 12, p_completed = 10, p_finished = False, p_shown = [0, 10]\<rparr>"
    by (simp add: update_advance_def add_task_def)
  have e3: "snd (ray_wait (replicate 11 (Inr None :: task_result)) eta_step) = [Inr None]"
    by code_simp
  from r1 r2 r3 a1 a2 show ?thesis
    by (simp add: e1 e2 e3 p0)
qed

section \<open>The progress display never overshoots\<close>

text \<open>
  C7, as amended. For every job whose limit is not negative and, under the per-batch
  policy, whose batch size is not negative when some batch succeeds: under both policies
  every progress bar of the job is ascending, never shows more than its total, and its
  total is the job total. In the per-batch policy, when the dispatch completes, the
  completed-file counter and the bar stand at the smaller of the job total and the batch
  size times the number of successful batches: the advance of the batch that would pass
  the total is clipped, and the counter ends at exactly the total.
\<close>

theorem progress_never_overshoots:
  assumes "0 \<le> limit a"
    and "batch_policy (mode a) (engine a) \<and> ok_count e a (input_folders e a) \<noteq> 0
         \<longrightarrow> 0 \<le> batch a"
  shows "(\<exists>new. bars (snd (run e a w)) = bars w @ new
            \<and> list_all (\<lambda>p. bar_ok p \<and> p_total p = limit_total (limit a) (found_total e a)) new)
     \<and> (batch_policy (mode a) (engine a) \<longrightarrow>
          (\<forall>d w'. fst (dispatch e a (limit_total (limit a) (found_total e a)) w') = Inr d \<longrightarrow>
             d_file_count d = min (batch a * ok_count e a (input_folders e a))
                                  (limit_total (limit a) (found_total e a))
             \<and> (\<exists>p. bars (snd (dispatch e a (limit_total (limit a) (found_total e a)) w'))
                        = bars w' @ [p]
                   \<and> p_completed p = d_file_count d)))"
proof -
  let ?ft = "limit_total (limit a) (found_total e a)"
  from run_bars_inv [OF assms, of w]
  obtain new where n: "bars (snd (run e a w)) = bars w @ new"
    "list_all (\<lambda>p. bar_inv p \<and> p_total p = ?ft) new"
    by blast
  from n(2) have "list_all (\<lambda>p. bar_ok p \<and> p_total p = ?ft) new"
    by (simp add: list_all_iff bar_inv_ok)
  with n(1) have 1: "\<exists>new. bars (snd (run e a w)) = bars w @ new
            \<and> list_all (\<lambda>p. bar_ok p \<and> p_total p = ?ft) new"
    by blast
  have ft: "0 \<le> ?ft"
    using assms(1) by (simp add: limit_total_def found_total_def)
  have 2: "d_file_count d = min (batch a * ok_count e a (input_folders e a)) ?ft
             \<and> (\<exists>p. bars (snd (dispatch e a ?ft w')) = bars w' @ [p]
                   \<and> p_completed p = d_file_count d)"
    if "batch_policy (mode a) (engine a)" "fst (dispatch e a ?ft w') = Inr d" for d w'
    using dispatch_batch_file_count [OF that(1) ft that(2)] by blast
  from 1 2 show ?thesis by blast
qed

text \<open>
  Five files in batches of three, every batch scored: the bar shows 0, 3, 5 and the
  counter ends at 5, not at 6.
\<close>

theorem progress_never_overshoots_witness:
  "0 \<le> limit (example_args ''speech'' ''obqe'' 0 3)
   \<and> 0 \<le> batch (example_args ''speech'' ''obqe'' 0 3)
   \<and> bars (snd (run (example_env (files_n 5) scan_scores)
                   (example_args ''speech'' ''obqe'' 0 3) world0))
       = [\<lparr>p_total = 5, p_completed = 5, p_finished = True, p_shown = [0, 3, 5]\<rparr>]
   \<and> list_all bar_ok (bars (snd (run (example_env (files_n 5) scan_scores)
                   (example_args ''speech'' ''obqe'' 0 3) world0)))
   \<and> fst (dispatch (example_env (files_n 5) scan_scores)
            (example_args ''speech'' ''obqe'' 0 3) 5 world0)
       = Inr \<lparr>d_file_count = 5, d_failed = 0\<rparr>
   \<and> min (batch (example_args ''speech'' ''obqe'' 0 3)
            * ok_count (example_env (files_n 5) scan_scores)
                (example_args ''speech'' ''obqe'' 0 3)
                (input_folders (example_env (files_n 5) scan_scores)
                   (example_args ''speech'' ''obqe'' 0 3))) 5 = 5"
proof -
  let ?e = "example_env (files_n 5) scan_scores"
  let ?a = "example_args ''speech'' ''obqe'' 0 3"
  have h1: "0 \<le> limit ?a" and h2: "0 \<le> batch ?a"
    by (simp_all add: example_args_def)
  then have h3: "batch_policy (mode ?a) (engine ?a) \<and> ok_count ?e ?a (input_folders ?e ?a) \<noteq> 0
         \<longrightarrow> 0 \<le> batch ?a"
    by simp
  have bp: "batch_policy (mode ?a) (engine ?a)"
    by (simp add: example_args_def batch_policy_def)
  have t: "limit_total (limit ?a) (found_total ?e ?a) = 5"
    by code_simp
  have v: "bars (snd (run ?e ?a world0))
       = [\<lparr>p_total = 5, p_completed = 5, p_finished = True, p_shown = [0, 3, 5]\<rparr>]"
    by code_simp
  have r: "fst (dispatch ?e ?a 5 world0) = Inr \<lparr>d_file_count = 5, d_failed = 0\<rparr>"
    by code_simp
  note concl = progress_never_overshoots [OF h1 h3, of world0]
  from concl have "list_all bar_ok (bars (snd (run ?e ?a world0)))"
    by (auto simp: world0_def list_all_iff)
  moreover from concl bp r
  have "min (batch ?a * ok_count ?e ?a (input_folders ?e ?a)) 5 = 5"
    unfolding t by fastforce
  ultimately show ?thesis
    using h1 h2 v r by blast
qed

text \<open>
  The claim as stated, for every job, fails for a negative limit: the limit becomes the
  total, so with limit \<open>-1\<close> and one input file the first bar shows 1 of \<open>-1\<close>, and the
  second bar goes from 0 down to \<open>-1\<close>. It also fails for a negative batch size when a
  batch succeeds: with batch size \<open>-3\<close> and one batch folder the bar goes from 0 down
  to \<open>-3\<close>.
\<close>

theorem progress_never_overshoots_counterexample:
  "bars (snd (run (example_env (files_n 1) scan_scores)
                (example_args ''iris'' ''obqe'' (- 1) 30) world0))
     = [\<lparr>p_total = - 1, p_completed = 1, p_finished = True, p_shown = [0, 1]\<rparr>,
        \<lparr>p_total = - 1, p_completed = - 1, p_finished = True, p_shown = [0, - 1]\<rparr>]
   \<and> \<not> bar_ok \<lparr>p_total = - 1, p_completed = 1, p_finished = True, p_shown = [0, 1]\<rparr>
   \<and> \<not> sorted (p_shown \<lparr>p_total = - 1, p_completed = - 1, p_finished = True,
                          p_shown = [0, - 1]\<rparr>)
   \<and> bars (snd (run (one_folder_env (files_n 1) scan_scores)
                (example_args ''speech'' ''obqe'' 0 (- 3)) world0))
     = [\<lparr>p_total = 1, p_completed = - 3, p_finished = False, p_shown = [0, - 3]\<rparr>]
   \<and> \<not> sorted (p_shown \<lparr>p_total = 1, p_completed = - 3, p_finished = False,
                          p_shown = [0, - 3]\<rparr>)"
  by code_simp

section \<open>Failed batches\<close>

text \<open>
  C9. In the per-batch policy, when the batch folders stay within the job total (no
  folder follows a batch whose advance was clipped; the partitioner that the spec
  describes yields such folders, see \<open>split_folders_within\<close>) or when no batch succeeds,
  the dispatch completes exactly when every batch's task returns, and the failed count it
  hands to the finalizer is the configured batch size times the number of batches whose
  task resolved to a falsy result: neither the job total nor the number of files in a
  batch enters. So when every batch fails and the folders, counted at the batch size,
  pass the total, the failed count exceeds the job total.
\<close>

theorem failed_batch_counts_whole_batch:
  assumes "batch_policy (mode a) (engine a)"
    and "folders_within e a ft \<or> ok_count e a (input_folders e a) = 0"
  shows "((\<exists>d. fst (dispatch e a ft w) = Inr d)
            \<longleftrightarrow> list_all (task_returns e a) (input_folders e a))
     \<and> (\<forall>d. fst (dispatch e a ft w) = Inr d \<longrightarrow>
          d_failed d = batch a * fail_count e a (input_folders e a)
          \<and> (fail_count e a (input_folders e a) = int (length (input_folders e a))
               \<and> ft < batch a * int (length (input_folders e a)) \<longrightarrow> ft < d_failed d))"
proof -
  let ?c0 = "\<lparr>file_count = 0, failed = 0, batch_now = batch a, bar = add_task ft\<rparr>"
  let ?fs = "input_folders e a"
  note res = dispatch_batch_result [OF assms(1), of e ft w]
  have 1: "(\<exists>d. fst (dispatch e a ft w) = Inr d) \<longleftrightarrow> list_all (task_returns e a) ?fs"
    using res by blast
  have f: "failed (batch_fold e a ft ?c0 ?fs) = failed ?c0 + batch a * fail_count e a ?fs"
  proof (cases "folders_within e a ft")
    case True
    show ?thesis
      by (rule batch_fold_failed [where s = 0]) (simp_all add: folders_within_all [OF True])
  next
    case False
    with assms(2) have "ok_count e a ?fs = 0" by simp
    from batch_fold_failed_none [OF this, of ft ?c0] show ?thesis by simp
  qed
  have 2: "d_failed d = batch a * fail_count e a ?fs" if "fst (dispatch e a ft w) = Inr d" for d
    using that res [of d] f by simp
  from 1 2 show ?thesis by simp
qed

text \<open>
  Five files in batches of three (3 and 2 files): when both batches fail the failed
  count is 6, above the job total 5; when only the last batch fails the failed count is
  3, above the 2 files of that batch.
\<close>

theorem failed_batch_counts_whole_batch_witness:
  "batch_policy (mode (example_args ''speech'' ''obqe'' 0 3))
     (engine (example_args ''speech'' ''obqe'' 0 3))
   \<and> folders_within (example_env (files_n 5) scan_raises) (example_args ''speech'' ''obqe'' 0 3) 5
   \<and> folders_within (example_env (files_n 5) (scan_fails_on ''temp/0/batch_1''))
       (example_args ''speech'' ''obqe'' 0 3) 5
   \<and> map length (split_batches (files_n 5) 3 0) = [3, 2]
   \<and> fst (dispatch (example_env (files_n 5) scan_raises)
            (example_args ''speech'' ''obqe'' 0 3) 5 world0)
       = Inr \<lparr>d_file_count = 0, d_failed = 6\<rparr>
   \<and> batch (example_args ''speech'' ''obqe'' 0 3)
       * fail_count (example_env (files_n 5) scan_raises) (example_args ''speech'' ''obqe'' 0 3)
           (input_folders (example_env (files_n 5) scan_raises)
              (example_args ''speech'' ''obqe'' 0 3)) = 6
   \<and> fst (dispatch (example_env (files_n 5) (scan_fails_on ''temp/0/batch_1''))
            (example_args ''speech'' ''obqe'' 0 3) 5 world0)
       = Inr \<lparr>d_file_count = 3, d_failed = 3\<rparr>
   \<and> batch (example_args ''speech'' ''obqe'' 0 3)
       * fail_count (example_env (files_n 5) (scan_fails_on ''temp/0/batch_1''))
           (example_args ''speech'' ''obqe'' 0 3)
           (input_folders (example_env (files_n 5) (scan_fails_on ''temp/0/batch_1''))
              (example_args ''speech'' ''obqe'' 0 3)) = 3"
proof -
  let ?a = "example_args ''speech'' ''obqe'' 0 3"
  let ?e1 = "example_env (files_n 5) scan_raises"
  let ?e2 = "example_env (files_n 5) (scan_fails_on ''temp/0/batch_1'')"
  have bp: "batch_policy (mode ?a) (engine ?a)"
    by (simp add: example_args_def batch_policy_def)
  have w1: "folders_within ?e1 ?a 5"
    by code_simp
  have w2: "folders_within ?e2 ?a 5"
    by code_simp
  have sb: "map length (split_batches (files_n 5) 3 0) = [3, 2]"
    by code_simp
  have v1: "fst (dispatch ?e1 ?a 5 world0) = Inr \<lparr>d_file_count = 0, d_failed = 6\<rparr>"
    by code_simp
  have v2: "fst (dispatch ?e2 ?a 5 world0) = Inr \<lparr>d_file_count = 3, d_failed = 3\<rparr>"
    by code_simp
  from w1 have w1': "folders_within ?e1 ?a 5 \<or> ok_count ?e1 ?a (input_folders ?e1 ?a) = 0"
    by simp
  from w2 have w2': "folders_within ?e2 ?a 5 \<or> ok_count ?e2 ?a (input_folders ?e2 ?a) = 0"
    by simp
  from failed_batch_counts_whole_batch [OF bp w1', of world0] v1
  have n1: "batch ?a * fail_count ?e1 ?a (input_folders ?e1 ?a) = 6"
    by simp
  from failed_batch_counts_whole_batch [OF bp w2', of world0] v2
  have n2: "batch ?a * fail_count ?e2 ?a (input_folders ?e2 ?a) = 3"
    by simp
  from bp w1 w2 sb v1 v2 n1 n2 show ?thesis by blast
qed

section \<open>The finalizer\<close>




text \<open>
  C3, as amended. Once the log reload has reached the failure count (sealing and
  reading the log did not raise), the job always prints its summary and the termination
  line. A failure to write the sealed log, to seam the output table, to generate the
  report or to filter the output is printed as a warning. A failed report leaves the
  report reference null and a failed filter leaves the filter entry out of the summary;
  the log reference and the output reference are not nulled by a failure.
\<close>

theorem finalization_failures_are_warnings:
  assumes "write_log_finish e = None" and "json_load e = None" and "logs w = Some entries"
    and "od = (if fc = count_failed entries fl then None else Some od0)"
  shows "fst (finalize e a f od0 ld fc fl w) = Inr ()
     \<and> (\<exists>pre s. console (snd (finalize e a f od0 ld fc fl w))
                  = console w @ pre @ [SummaryHeader, PrintJson s, TaskFinished]
          \<and> field (field s ''Assessment Task'') ''Log'' = JStr ld
          \<and> field (field s ''Assessment Task'') ''Output'' = json_of_path od
          \<and> (\<forall>ex. json_dump e = Some ex \<longrightarrow> FailedReloadLog (str_exn ex) \<in> set pre)
          \<and> (\<forall>ex. truthy_path od \<and> write_csv_seam e = Some ex \<longrightarrow>
                 FailedSeam (str_exn ex) \<in> set pre)
          \<and> (\<forall>ex. truthy_path od \<and> reporting a
                   \<and> generate_report e (the od) (cwd a) (prefix_arg a) = Inl ex \<longrightarrow>
                 FailedReport (str_exn ex) \<in> set pre
                 \<and> field (field s ''Assessment Task'') ''Report'' = JNull)
          \<and> (\<forall>ex. truthy_path od \<and> (attributes a \<noteq> [] \<or> query a \<noteq> [] \<or> sort_by a \<noteq> [])
                   \<and> filter_output e (the od) (attributes a) (query a) (sort_by a) (cwd a)
                        (prefix_arg a) = Inl ex \<longrightarrow>
                 FailedFilter (str_exn ex) \<in> set pre \<and> ''Outlier Filter'' \<notin> set (keys s)))"
proof -
  let ?w1 = "snd (reload_log e a f fc fl w)"
  let ?w2 = "seam_output e od ?w1"
  let ?rep = "make_report e a od ?w2"
  let ?flt = "make_filter e a od (snd ?rep)"
  let ?s = "JObj (summary e f ld fc od (fst ?rep) (fst ?flt))"
  note fin = finalize_emits [OF assms(1-3), of a f od0 ld fc fl, folded assms(4)]
  from reload_log_warns [OF assms(1-3), of a f fc fl] obtain p1 where
    p1: "console ?w1 = console w @ p1"
        "\<forall>ex. json_dump e = Some ex \<longrightarrow> FailedReloadLog (str_exn ex) \<in> set p1"
    by blast
  from seam_output_warns [of e od ?w1] obtain p2 where
    p2: "console ?w2 = console ?w1 @ p2"
        "\<forall>ex. truthy_path od \<and> write_csv_seam e = Some ex \<longrightarrow> FailedSeam (str_exn ex) \<in> set p2"
    by blast
  from make_report_warns [of e a od ?w2] obtain p3 where
    p3: "console (snd ?rep) = console ?w2 @ p3"
        "\<forall>ex. truthy_path od \<and> reporting a
              \<and> generate_report e (the od) (cwd a) (prefix_arg a) = Inl ex \<longrightarrow>
            FailedReport (str_exn ex) \<in> set p3 \<and> fst ?rep = JNull"
    by blast
  from make_filter_warns [of e a od "snd ?rep"] obtain p4 where
    p4: "console (snd ?flt) = console (snd ?rep) @ p4"
        "\<forall>ex. truthy_path od \<and> (attributes a \<noteq> [] \<or> query a \<noteq> [] \<or> sort_by a \<noteq> [])
              \<and> filter_output e (the od) (attributes a) (query a) (sort_by a) (cwd a)
                   (prefix_arg a) = Inl ex \<longrightarrow>
            FailedFilter (str_exn ex) \<in> set p4 \<and> fst ?flt = JNull"
    by blast
  have c: "console (snd (finalize e a f od0 ld fc fl w))
             = console w @ (p1 @ p2 @ p3 @ p4) @ [SummaryHeader, PrintJson ?s, TaskFinished]"
    using p1(1) p2(1) p3(1) p4(1) by (simp add: fin Let_def)
  have r: "fst (finalize e a f od0 ld fc fl w) = Inr ()"
    by (simp add: fin Let_def)
  have k: "\<forall>ex. truthy_path od \<and> (attributes a \<noteq> [] \<or> query a \<noteq> [] \<or> sort_by a \<noteq> [])
              \<and> filter_output e (the od) (attributes a) (query a) (sort_by a) (cwd a)
                   (prefix_arg a) = Inl ex \<longrightarrow> ''Outlier Filter'' \<notin> set (keys ?s)"
  proof (intro allI impI)
    fix ex
    assume "truthy_path od \<and> (attributes a \<noteq> [] \<or> query a \<noteq> [] \<or> sort_by a \<noteq> [])
              \<and> filter_output e (the od) (attributes a) (query a) (sort_by a) (cwd a)
                   (prefix_arg a) = Inl ex"
    with p4(2) have "fst ?flt = JNull" by blast
    then show "''Outlier Filter'' \<notin> set (keys ?s)"
      by (simp add: summary_no_filter del: keys.simps)
  qed
  have "console (snd (finalize e a f od0 ld fc fl w))
                  = console w @ (p1 @ p2 @ p3 @ p4) @ [SummaryHeader, PrintJson ?s, TaskFinished]
          \<and> field (field ?s ''Assessment Task'') ''Log'' = JStr ld
          \<and> field (field ?s ''Assessment Task'') ''Output'' = json_of_path od
          \<and> (\<forall>ex. json_dump e = Some ex \<longrightarrow> FailedReloadLog (str_exn ex) \<in> set (p1 @ p2 @ p3 @ p4))
          \<and> (\<forall>ex. truthy_path od \<and> write_csv_seam e = Some ex \<longrightarrow>
                 FailedSeam (str_exn ex) \<in> set (p1 @ p2 @ p3 @ p4))
          \<and> (\<forall>ex. truthy_path od \<and> reporting a
                   \<and> generate_report e (the od) (cwd a) (prefix_arg a) = Inl ex \<longrightarrow>
                 FailedReport (str_exn ex) \<in> set (p1 @ p2 @ p3 @ p4)
                 \<and> field (field ?s ''Assessment Task'') ''Report'' = JNull)
          \<and> (\<forall>ex. truthy_path od \<and> (attributes a \<noteq> [] \<or> query a \<noteq> [] \<or> sort_by a \<noteq> [])
                   \<and> filter_output e (the od) (attributes a) (query a) (sort_by a) (cwd a)
                        (prefix_arg a) = Inl ex \<longrightarrow>
                 FailedFilter (str_exn ex) \<in> set (p1 @ p2 @ p3 @ p4)
                 \<and> ''Outlier Filter'' \<notin> set (keys ?s))"
    using c p1(2) p2(2) p3(2) p4(2) k
    by (simp add: summary_fields del: keys.simps field.simps)
  with r show ?thesis by blast
qed

theorem finalization_failures_are_warnings_witness:
  "write_log_finish ((example_env [] scan_scores)
       \<lparr>generate_report := (\<lambda>out c pre. Inl (Exception ''no pandas''))\<rparr>) = None
   \<and> json_load ((example_env [] scan_scores)
       \<lparr>generate_report := (\<lambda>out c pre. Inl (Exception ''no pandas''))\<rparr>) = None
   \<and> logs (world0\<lparr>logs := Some []\<rparr>) = Some []
   \<and> Some ''out/o.csv'' = (if (1::int) = count_failed [] 0 then None else Some ''out/o.csv'')
   \<and> fst (finalize ((example_env [] scan_scores)
              \<lparr>generate_report := (\<lambda>out c pre. Inl (Exception ''no pandas''))\<rparr>)
            (example_args ''iris'' ''obqe'' 0 30) ''data/'' ''out/o.csv'' ''out/l.json'' 1 0
            (world0\<lparr>logs := Some []\<rparr>)) = Inr ()
   \<and> console (snd (finalize ((example_env [] scan_scores)
              \<lparr>generate_report := (\<lambda>out c pre. Inl (Exception ''no pandas''))\<rparr>)
            (example_args ''iris'' ''obqe'' 0 30) ''data/'' ''out/o.csv'' ''out/l.json'' 1 0
            (world0\<lparr>logs := Some []\<rparr>)))
       = [FailedReport ''no pandas'', SummaryHeader,
          PrintJson (JObj [(''Total process time'', JStr ''0h0m9s''),
                           (''System throughput'', JStr ''1.00 it/s''),
                           (''Assessment Task'',
                              JObj [(''Processed'', JInt 1), (''Input'', JStr ''data/''),
                                    (''Output'', JStr ''out/o.csv''), (''Report'', JNull),
                                    (''Log'', JStr ''out/l.json'')])]),
          TaskFinished]"
proof -
  let ?e = "(example_env [] scan_scores)
              \<lparr>generate_report := (\<lambda>out c pre. Inl (Exception ''no pandas''))\<rparr>"
  let ?w = "world0\<lparr>logs := Some []\<rparr>"
  have h1: "write_log_finish ?e = None" and h2: "json_load ?e = None"
    by (simp_all add: example_env_def)
  have h3: "logs ?w = Some []"
    by simp
  have h4: "Some ''out/o.csv'' = (if (1::int) = count_failed [] 0 then None else Some ''out/o.csv'')"
    by (simp add: count_failed_def)
  from finalization_failures_are_warnings [OF h1 h2 h3 h4,
      of "example_args ''iris'' ''obqe'' 0 30" "''data/''" "''out/l.json''"]
  have r: "fst (finalize ?e (example_args ''iris'' ''obqe'' 0 30) ''data/'' ''out/o.csv''
             ''out/l.json'' 1 0 ?w) = Inr ()"
    by blast
  have c: "console (snd (finalize ?e (example_args ''iris'' ''obqe'' 0 30) ''data/''
             ''out/o.csv'' ''out/l.json'' 1 0 ?w))
       = [FailedReport ''no pandas'', SummaryHeader,
          PrintJson (JObj [(''Total process time'', JStr ''0h0m9s''),
                           (''System throughput'', JStr ''1.00 it/s''),
                           (''Assessment Task'',
                              JObj [(''Processed'', JInt 1), (''Input'', JStr ''data/''),
                                    (''Output'', JStr ''out/o.csv''), (''Report'', JNull),
                                    (''Log'', JStr ''out/l.json'')])]),
          TaskFinished]"
    by code_simp
  from h1 h2 h3 h4 r c show ?thesis by blast
qed

text \<open>
  The claim as stated fails in two ways. When reading the log back raises, the warning
  is printed, but line 280 then reads the variable \<open>failed_count\<close> that was never
  bound: the job ends with that exception and prints no summary. When writing the
  sealed log raises, the job prints its summary, and the log reference in it is the log
  path, not null.
\<close>

theorem finalization_failures_are_warnings_counterexample:
  "fst (run ((example_env (files_n 1) scan_scores)\<lparr>json_load := Some (Exception ''bad log'')\<rparr>)
          (example_args ''iris'' ''obqe'' 0 30) world0)
     = Inl (UnboundLocalError ''failed_count'')
   \<and> printed (console (snd (run ((example_env (files_n 1) scan_scores)
                                    \<lparr>json_load := Some (Exception ''bad log'')\<rparr>)
                                 (example_args ''iris'' ''obqe'' 0 30) world0))) = []
   \<and> fst (run ((example_env (files_n 1) scan_scores)
                 \<lparr>json_dump := Some (Exception ''disk full'')\<rparr>)
              (example_args ''iris'' ''obqe'' 0 30) world0) = Inr ()
   \<and> map (\<lambda>s. field (field s ''Assessment Task'') ''Log'')
        (printed (console (snd (run ((example_env (files_n 1) scan_scores)
                                       \<lparr>json_dump := Some (Exception ''disk full'')\<rparr>)
                                    (example_args ''iris'' ''obqe'' 0 30) world0))))
     = [JStr ''out/log_iris_obqe_T.json'']
   \<and> log_sealed (snd (run ((example_env (files_n 1) scan_scores)
                             \<lparr>json_dump := Some (Exception ''disk full'')\<rparr>)
                          (example_args ''iris'' ''obqe'' 0 30) world0)) = None"
  by code_simp




end
